theory Spec2Isabelle
  imports Main "HOL-Library.Word"
begin

unbundle bit_operations_syntax

section \<open>Bytes, SHA-256 and hex strings\<close>

text \<open>
  The engines hash with Node's \<^verbatim>\<open>crypto.createHash('sha256')\<close> and move digests
  around as \<^verbatim>\<open>Buffer\<close>s.  A buffer is a list of bytes; SHA-256 is written out after
  FIPS 180-4, so that every digest below is a computable value.  The round constants and
  the initial hash value are written in decimal.
\<close>

type_synonym byte = "8 word"
type_synonym buffer = "byte list"

definition K256 :: "32 word list" where
  "K256 =
   [1116352408, 1899447441, 3049323471, 3921009573, 961987163, 1508970993, 2453635748, 2870763221,
    3624381080, 310598401, 607225278, 1426881987, 1925078388, 2162078206, 2614888103, 3248222580,
    3835390401, 4022224774, 264347078, 604807628, 770255983, 1249150122, 1555081692, 1996064986,
    2554220882, 2821834349, 2952996808, 3210313671, 3336571891, 3584528711, 113926993, 338241895,
    666307205, 773529912, 1294757372, 1396182291, 1695183700, 1986661051, 2177026350, 2456956037,
    2730485921, 2820302411, 3259730800, 3345764771, 3516065817, 3600352804, 4094571909, 275423344,
    430227734, 506948616, 659060556, 883997877, 958139571, 1322822218, 1537002063, 1747873779,
    1955562222, 2024104815, 2227730452, 2361852424, 2428436474, 2756734187, 3204031479, 3329325298]"

text \<open>The running hash value is the eight working words \<open>a \<dots> h\<close>.\<close>

type_synonym sha_state =
  "32 word \<times> 32 word \<times> 32 word \<times> 32 word \<times> 32 word \<times> 32 word \<times> 32 word \<times> 32 word"

definition H256 :: sha_state where
  "H256 = (1779033703, 3144134277, 1013904242, 2773480762,
           1359893119, 2600822924, 528734635, 1541459225)"

definition be32 :: "32 word \<Rightarrow> buffer" where
  "be32 w = [ucast (drop_bit 24 w), ucast (drop_bit 16 w), ucast (drop_bit 8 w), ucast w]"

definition be64 :: "64 word \<Rightarrow> buffer" where
  "be64 w = [ucast (drop_bit 56 w), ucast (drop_bit 48 w), ucast (drop_bit 40 w),
             ucast (drop_bit 32 w), ucast (drop_bit 24 w), ucast (drop_bit 16 w),
             ucast (drop_bit 8 w), ucast w]"

definition be_word :: "buffer \<Rightarrow> 32 word" where
  "be_word bs = foldl (\<lambda>w b. push_bit 8 w OR ucast b) 0 bs"

definition sha_pad :: "buffer \<Rightarrow> buffer" where
  "sha_pad m =
     m @ [0x80] @ replicate ((119 - length m mod 64) mod 64) 0
       @ be64 (word_of_nat (8 * length m))"

text \<open>\<open>split_every k n xs\<close> cuts \<open>xs\<close> into pieces of \<open>k\<close> elements (at most \<open>n\<close> pieces).\<close>

fun split_every :: "nat \<Rightarrow> nat \<Rightarrow> 'a list \<Rightarrow> 'a list list" where
  "split_every k 0 xs = []"
| "split_every k (Suc n) xs =
     (if xs = [] then [] else take k xs # split_every k n (drop k xs))"

definition ssig0 :: "32 word \<Rightarrow> 32 word" where
  "ssig0 x = word_rotr 7 x XOR word_rotr 18 x XOR drop_bit 3 x"

definition ssig1 :: "32 word \<Rightarrow> 32 word" where
  "ssig1 x = word_rotr 17 x XOR word_rotr 19 x XOR drop_bit 10 x"

definition bsig0 :: "32 word \<Rightarrow> 32 word" where
  "bsig0 x = word_rotr 2 x XOR word_rotr 13 x XOR word_rotr 22 x"

definition bsig1 :: "32 word \<Rightarrow> 32 word" where
  "bsig1 x = word_rotr 6 x XOR word_rotr 11 x XOR word_rotr 25 x"

definition ch :: "32 word \<Rightarrow> 32 word \<Rightarrow> 32 word \<Rightarrow> 32 word" where
  "ch x y z = (x AND y) XOR (NOT x AND z)"

definition maj :: "32 word \<Rightarrow> 32 word \<Rightarrow> 32 word \<Rightarrow> 32 word" where
  "maj x y z = (x AND y) XOR (x AND z) XOR (y AND z)"

text \<open>The message schedule, newest word first while it grows from 16 to 64 words.\<close>

fun schedule :: "nat \<Rightarrow> 32 word list \<Rightarrow> 32 word list" where
  "schedule 0 ws = ws"
| "schedule (Suc n) ws =
     schedule n ((ssig1 (ws ! 1) + ws ! 6 + ssig0 (ws ! 14) + ws ! 15) # ws)"

fun sha_round :: "sha_state \<Rightarrow> 32 word \<times> 32 word \<Rightarrow> sha_state" where
  "sha_round (a, b, c, d, e, f, g, h) (k, w) =
     (let t1 = h + bsig1 e + ch e f g + k + w;
          t2 = bsig0 a + maj a b c
      in (t1 + t2, a, b, c, d + t1, e, f, g))"

fun sha_add :: "sha_state \<Rightarrow> sha_state \<Rightarrow> sha_state" where
  "sha_add (a, b, c, d, e, f, g, h) (a', b', c', d', e', f', g', h') =
     (a + a', b + b', c + c', d + d', e + e', f + f', g + g', h + h')"

definition sha_block :: "sha_state \<Rightarrow> buffer \<Rightarrow> sha_state" where
  "sha_block hs blk =
     (let w16 = map be_word (split_every 4 16 blk);
          w64 = rev (schedule 48 (rev w16))
      in sha_add hs (foldl sha_round hs (zip K256 w64)))"

fun sha_out :: "sha_state \<Rightarrow> buffer" where
  "sha_out (a, b, c, d, e, f, g, h) =
     be32 a @ be32 b @ be32 c @ be32 d @ be32 e @ be32 f @ be32 g @ be32 h"

definition sha256 :: "buffer \<Rightarrow> buffer" where
  "sha256 m =
     (let p = sha_pad m in sha_out (foldl sha_block H256 (split_every 64 (length p) p)))"

text \<open>\<^verbatim>\<open>buffer.toString('hex')\<close>: two lowercase digits per byte.\<close>

definition hexdigit :: "nat \<Rightarrow> char" where
  "hexdigit n = ''0123456789abcdef'' ! n"

definition toHex :: "buffer \<Rightarrow> string" where
  "toHex bs = concat (map (\<lambda>b. [hexdigit (unat b div 16), hexdigit (unat b mod 16)]) bs)"

text \<open>
  \<^verbatim>\<open>Buffer.from(s, 'hex')\<close>: decodes pairs of digits of either case and stops, without an
  error, at the first pair that is not hexadecimal; a trailing single character is dropped.
\<close>

definition hexval :: "char \<Rightarrow> nat option" where
  "hexval c =
     (let n = (of_char c :: nat) in
      if 48 \<le> n \<and> n \<le> 57 then Some (n - 48)
      else if 97 \<le> n \<and> n \<le> 102 then Some (n - 87)
      else if 65 \<le> n \<and> n \<le> 70 then Some (n - 55)
      else None)"

fun fromHex :: "string \<Rightarrow> buffer" where
  "fromHex (c # d # cs) =
     (case hexval c of
        None \<Rightarrow> []
      | Some a \<Rightarrow> (case hexval d of
          None \<Rightarrow> []
        | Some b \<Rightarrow> word_of_nat (16 * a + b) # fromHex cs))"
| "fromHex _ = []"

text \<open>
  UTF-8 of a string.  A \<^typ>\<open>char\<close> is taken as the code point of the same number
  (0 to 255), so a character from 128 on takes two bytes.
\<close>

definition utf8_char :: "char \<Rightarrow> buffer" where
  "utf8_char c =
     (let n = (of_char c :: nat) in
      if n < 128 then [word_of_nat n]
      else [word_of_nat (192 + n div 64), word_of_nat (128 + n mod 64)])"

definition utf8 :: "string \<Rightarrow> buffer" where
  "utf8 s = concat (map utf8_char s)"

section \<open>JavaScript values, typed records and errors\<close>

text \<open>
  The values a property of a typed record can hold, and the values that travel on the
  visitors' stack.  A \<open>VResource\<close> is a reference to a \<^verbatim>\<open>Resource\<close> object in the heap:
  the visitors receive and pass references, and the salt visitor writes through them.
  The engine does one thing with a number, \<^verbatim>\<open>JSON.stringify\<close>, so a \<open>VNumber\<close> carries the
  text that \<^verbatim>\<open>JSON.stringify\<close> writes for it: the number's own \<^verbatim>\<open>toString\<close> when it is finite
  (\<^verbatim>\<open>42\<close>, \<^verbatim>\<open>0.5\<close>, \<^verbatim>\<open>1e+21\<close>, and \<^verbatim>\<open>0\<close> for the negative zero), and \<^verbatim>\<open>null\<close> for \<^verbatim>\<open>NaN\<close> and the
  infinities.  In the same way a \<open>VDateTime\<close> carries the ISO-8601 text that the date
  object's \<^verbatim>\<open>toJSON\<close> yields.  A \<open>VRelationship\<close> carries its fully qualified type.
\<close>

datatype jsvalue =
    VUndefined
  | VNull
  | VString string
  | VBoolean bool
  | VNumber string
  | VDateTime string
  | VBuffer buffer
  | VArray "jsvalue list"
  | VResource nat
  | VRelationship string

text \<open>
  Modelled from the spec: the \<^verbatim>\<open>Resource\<close> class is not among the sources.  A typed
  record carries its fully qualified type, a mapping from property names to values, and
  a salt store from property names to salts, read by \<^verbatim>\<open>getSalt(name)\<close> (nil when
  absent) and written by \<^verbatim>\<open>setSalt(name, bytes)\<close>.
\<close>

record resource =
  fqType :: string
  props :: "string \<rightharpoonup> jsvalue"
  salts :: "string \<rightharpoonup> buffer"

text \<open>
  What the code throws: \<^verbatim>\<open>new Error(message)\<close> with a fixed message; the two
  \<^verbatim>\<open>'Expected a ..., but found ' + x\<close> errors with the offending value; the \<^verbatim>\<open>TypeError\<close>s
  that the runtime raises for a property read on null or undefined, a call of something
  that is not a function, a destructuring of undefined, or a \<^verbatim>\<open>hash.update\<close> argument
  that is neither a string nor a buffer; the model manager's exception for an unknown
  type; and the \<^verbatim>\<open>RangeError\<close> of an exhausted call stack.
\<close>

datatype error =
    Error string
  | ExpectedResource jsvalue
  | ExpectedRelationship jsvalue
  | TypeError string
  | TypeNotFoundException string
  | RangeError

text \<open>
  The state a call can read or change: the heap of \<^verbatim>\<open>Resource\<close> objects, and the
  bytes that \<^verbatim>\<open>crypto.randomBytes\<close> will hand out next.
\<close>

record world =
  heap :: "nat \<rightharpoonup> resource"
  entropy :: "nat \<Rightarrow> byte"

type_synonym 'a js = "world \<Rightarrow> (error + 'a) \<times> world"

definition js_return :: "'a \<Rightarrow> 'a js" where
  "js_return x = (\<lambda>w. (Inr x, w))"

definition js_throw :: "error \<Rightarrow> 'a js" where
  "js_throw e = (\<lambda>w. (Inl e, w))"

definition js_bind :: "'a js \<Rightarrow> ('a \<Rightarrow> 'b js) \<Rightarrow> 'b js" where
  "js_bind m f = (\<lambda>w. case m w of (Inl e, w') \<Rightarrow> (Inl e, w') | (Inr x, w') \<Rightarrow> f x w')"

definition js_lift :: "error + 'a \<Rightarrow> 'a js" where
  "js_lift r = (\<lambda>w. (r, w))"

text \<open>\<^verbatim>\<open>typed[name]\<close>, \<^verbatim>\<open>typed.getSalt(name)\<close> and \<^verbatim>\<open>typed.setSalt(name, salt)\<close>.\<close>

definition getProperty :: "nat \<Rightarrow> string \<Rightarrow> jsvalue js" where
  "getProperty a name = (\<lambda>w.
     (case heap w a of
        None \<Rightarrow> (Inr VUndefined, w)
      | Some r \<Rightarrow> (case props r name of None \<Rightarrow> (Inr VUndefined, w) | Some v \<Rightarrow> (Inr v, w))))"

definition getSalt :: "nat \<Rightarrow> string \<Rightarrow> jsvalue js" where
  "getSalt a name = (\<lambda>w.
     (case heap w a of
        None \<Rightarrow> (Inr VUndefined, w)
      | Some r \<Rightarrow> (case salts r name of None \<Rightarrow> (Inr VUndefined, w) | Some s \<Rightarrow> (Inr (VBuffer s), w))))"

definition setSalt :: "nat \<Rightarrow> string \<Rightarrow> buffer \<Rightarrow> unit js" where
  "setSalt a name s = (\<lambda>w.
     (case heap w a of
        None \<Rightarrow> (Inl (TypeError ''Cannot read properties of undefined (reading setSalt)''), w)
      | Some r \<Rightarrow> (Inr (), w\<lparr>heap := (heap w)(a \<mapsto> r\<lparr>salts := (salts r)(name \<mapsto> s)\<rparr>)\<rparr>)))"

text \<open>\<^verbatim>\<open>typed instanceof Resource\<close>: a reference to an object of the heap.\<close>

definition isResource :: "jsvalue \<Rightarrow> bool js" where
  "isResource v = (\<lambda>w. (Inr (case v of VResource a \<Rightarrow> heap w a \<noteq> None | _ \<Rightarrow> False), w))"

text \<open>\<^verbatim>\<open>value.getFullyQualifiedType()\<close>, a method of resources and relationships only.\<close>

definition getFullyQualifiedType :: "jsvalue \<Rightarrow> string js" where
  "getFullyQualifiedType v = (\<lambda>w.
     (case v of
        VResource a \<Rightarrow>
          (case heap w a of
             None \<Rightarrow> (Inl (TypeError ''Cannot read properties of undefined (reading getFullyQualifiedType)''), w)
           | Some r \<Rightarrow> (Inr (fqType r), w))
      | VRelationship t \<Rightarrow> (Inr t, w)
      | VUndefined \<Rightarrow>
          (Inl (TypeError ''Cannot read properties of undefined (reading getFullyQualifiedType)''), w)
      | VNull \<Rightarrow>
          (Inl (TypeError ''Cannot read properties of null (reading getFullyQualifiedType)''), w)
      | _ \<Rightarrow> (Inl (TypeError ''value.getFullyQualifiedType is not a function''), w)))"

text \<open>\<^verbatim>\<open>crypto.randomBytes(n)\<close>: the next \<open>n\<close> bytes of the entropy source.\<close>

definition randomBytes :: "nat \<Rightarrow> buffer js" where
  "randomBytes n = (\<lambda>w.
     (Inr (map (entropy w) [0..<n]), w\<lparr>entropy := (\<lambda>i. entropy w (i + n))\<rparr>))"

section \<open>The schema\<close>

text \<open>
  Modelled from the spec: the schema classes (\<^verbatim>\<open>ModelManager\<close>, \<^verbatim>\<open>ClassDeclaration\<close>,
  \<^verbatim>\<open>Field\<close>, \<^verbatim>\<open>RelationshipDeclaration\<close>, \<^verbatim>\<open>ModelUtil\<close>) are not among the sources.  The
  visitors use of them what the schema-introspection interface of the specification
  gives: for a class name the ordered list of its properties, and for each property its
  name and its classifier.  \<^verbatim>\<open>getType\<close> of an unknown name throws, as the factory's
  documentation says.

  A property of a class declaration is a field or a relationship.  A field has a name,
  \<^verbatim>\<open>isArray()\<close>, and a type that is primitive (\<^verbatim>\<open>isPrimitive()\<close>), an enumeration
  (\<^verbatim>\<open>ModelUtil.isEnum(field)\<close>) or a class, by its fully qualified name.  A class
  declaration is the ordered list that \<^verbatim>\<open>getProperties()\<close> returns, and the model manager
  finds it by name.
\<close>

datatype fieldType = Primitive | Enum | Class string

datatype property =
    Field string bool fieldType
  | RelationshipDeclaration string

fun getName :: "property \<Rightarrow> string" where
  "getName (Field name _ _) = name"
| "getName (RelationshipDeclaration name) = name"

type_synonym classDeclaration = "property list"
type_synonym modelManager = "string \<rightharpoonup> classDeclaration"

definition getType :: "modelManager \<Rightarrow> string \<Rightarrow> classDeclaration js" where
  "getType mm name =
     (case mm name of None \<Rightarrow> js_throw (TypeNotFoundException name) | Some cd \<Rightarrow> js_return cd)"

section \<open>Canonical text and the hash object\<close>

text \<open>\<^verbatim>\<open>JSON.stringify\<close> of a string: quoted, with the JSON escapes.\<close>

definition json_escape :: "char \<Rightarrow> string" where
  "json_escape c =
     (let n = (of_char c :: nat) in
      if n = 34 then [CHR 0x5C, CHR 0x22]
      else if n = 92 then [CHR 0x5C, CHR 0x5C]
      else if n = 8 then [CHR 0x5C, CHR ''b'']
      else if n = 9 then [CHR 0x5C, CHR ''t'']
      else if n = 10 then [CHR 0x5C, CHR ''n'']
      else if n = 12 then [CHR 0x5C, CHR ''f'']
      else if n = 13 then [CHR 0x5C, CHR ''r'']
      else if n < 32 then [CHR 0x5C, CHR ''u'', CHR ''0'', CHR ''0'', hexdigit (n div 16), hexdigit (n mod 16)]
      else [c])"

definition json_quote :: "string \<Rightarrow> string" where
  "json_quote s = [CHR 0x22] @ concat (map json_escape s) @ [CHR 0x22]"

fun show_nat :: "nat \<Rightarrow> string" where
  "show_nat n = (if n < 10 then [hexdigit n] else show_nat (n div 10) @ [hexdigit (n mod 10)])"

declare show_nat.simps [simp del]

fun commas :: "string list \<Rightarrow> string" where
  "commas [] = []"
| "commas [x] = x"
| "commas (x # y # ys) = x @ '','' @ commas (y # ys)"

text \<open>
  \<^verbatim>\<open>JSON.stringify(value)\<close>: \<open>None\<close> is the result \<^verbatim>\<open>undefined\<close>.  A number is written as
  its text, \<^verbatim>\<open>null\<close> as \<^verbatim>\<open>null\<close>, an undefined array element as \<^verbatim>\<open>null\<close>, and a buffer through
  its \<^verbatim>\<open>toJSON\<close>.

  Modelled from the spec: \<^verbatim>\<open>toJSON\<close> of a resource or relationship is not among the
  sources; a value that cannot be canonicalised as a primitive is an error.
\<close>

fun JSON_stringify :: "jsvalue \<Rightarrow> error + string option"
  and JSON_elements :: "jsvalue list \<Rightarrow> error + string list" where
  "JSON_stringify VUndefined = Inr None"
| "JSON_stringify VNull = Inr (Some ''null'')"
| "JSON_stringify (VString s) = Inr (Some (json_quote s))"
| "JSON_stringify (VBoolean b) = Inr (Some (if b then ''true'' else ''false''))"
| "JSON_stringify (VNumber text) = Inr (Some text)"
| "JSON_stringify (VDateTime s) = Inr (Some (json_quote s))"
| "JSON_stringify (VBuffer bs) =
     Inr (Some (''{'' @ json_quote ''type'' @ '':'' @ json_quote ''Buffer'' @ '','' @ json_quote ''data''
                @ '':['' @ commas (map (\<lambda>b. show_nat (unat b)) bs) @ '']}''))"
| "JSON_stringify (VArray vs) =
     (case JSON_elements vs of
        Inl e \<Rightarrow> Inl e
      | Inr ts \<Rightarrow> Inr (Some (''['' @ commas ts @ '']'')))"
| "JSON_stringify (VResource a) = Inl (Error ''TypeMismatch: a resource is not a primitive value'')"
| "JSON_stringify (VRelationship t) = Inl (Error ''TypeMismatch: a relationship is not a primitive value'')"
| "JSON_elements [] = Inr []"
| "JSON_elements (v # vs) =
     (case JSON_stringify v of
        Inl e \<Rightarrow> Inl e
      | Inr t \<Rightarrow>
          (case JSON_elements vs of
             Inl e \<Rightarrow> Inl e
           | Inr ts \<Rightarrow> Inr ((case t of None \<Rightarrow> ''null'' | Some x \<Rightarrow> x) # ts)))"

text \<open>
  The hash object: \<^verbatim>\<open>createHash('sha256')\<close>, \<^verbatim>\<open>update(data)\<close>, \<^verbatim>\<open>digest()\<close>.  Its state is
  the input so far.  \<^verbatim>\<open>update\<close> takes a string (as UTF-8) or a buffer and raises a
  \<^verbatim>\<open>TypeError\<close> for anything else, \<^verbatim>\<open>undefined\<close> included.
\<close>

definition createHash :: buffer where
  "createHash = []"

definition hash_update :: "buffer \<Rightarrow> jsvalue \<Rightarrow> error + buffer" where
  "hash_update h data =
     (case data of
        VString s \<Rightarrow> Inr (h @ utf8 s)
      | VBuffer b \<Rightarrow> Inr (h @ b)
      | _ \<Rightarrow> Inl (TypeError ''The data argument must be of type string or an instance of Buffer''))"

definition digest :: "buffer \<Rightarrow> buffer" where
  "digest h = sha256 h"

text \<open>The value that \<^verbatim>\<open>JSON.stringify\<close> returned, as the argument of \<^verbatim>\<open>update\<close>.\<close>

definition serialized :: "string option \<Rightarrow> jsvalue" where
  "serialized t = (case t of None \<Rightarrow> VUndefined | Some s \<Rightarrow> VString s)"

section \<open>The four visitors\<close>

text \<open>
  Modelled from the spec: \<^verbatim>\<open>TypedStack\<close> is not among the sources; it is the explicit value
  stack that is pushed before recursion and popped at the top of every visit.
  The visitors pass the record, the property value and the salt to each other on
  \<^verbatim>\<open>parameters.stack\<close>: each caller pushes what the callee pops first.  Here they are
  arguments.  \<^verbatim>\<open>parameters.currentPath\<close>, pushed before a property is visited and popped
  after, is the argument \<open>cur\<close>.  The first argument bounds the depth of the recursion
  through nested classes: the call stack is finite, and running out of it is a
  \<^verbatim>\<open>RangeError\<close>.  The arrays that the source calls \<^verbatim>\<open>before\<close> and \<^verbatim>\<open>after\<close> are
  \<open>bef\<close> and \<open>aft\<close> here.
\<close>

subsection \<open>SaltVisitor\<close>

definition salt_visitRelationshipDeclaration :: "jsvalue \<Rightarrow> buffer option js" where
  "salt_visitRelationshipDeclaration relationship =
     (case relationship of
        VRelationship _ \<Rightarrow> js_throw (Error ''Not implemented for Relationships'')
      | _ \<Rightarrow> js_throw (ExpectedRelationship relationship))"

function (sequential)
      salt_visitClassDeclaration :: "nat \<Rightarrow> modelManager \<Rightarrow> classDeclaration \<Rightarrow> jsvalue \<Rightarrow> unit js"
  and salt_properties :: "nat \<Rightarrow> modelManager \<Rightarrow> property list \<Rightarrow> nat \<Rightarrow> unit js"
  and salt_visitField :: "nat \<Rightarrow> modelManager \<Rightarrow> bool \<Rightarrow> fieldType \<Rightarrow> jsvalue \<Rightarrow> buffer option js"
where
  "salt_visitClassDeclaration n mm classDeclaration typed =
     js_bind (isResource typed) (\<lambda>ok.
       case typed of
         VResource a \<Rightarrow>
           if ok then salt_properties n mm classDeclaration a
           else js_throw (ExpectedResource typed)
       | _ \<Rightarrow> js_throw (ExpectedResource typed))"
| "salt_properties n mm [] a = js_return ()"
| "salt_properties n mm (property # properties) a =
     js_bind (getProperty a (getName property)) (\<lambda>v.
     js_bind (case property of
                Field _ isArray ty \<Rightarrow> salt_visitField n mm isArray ty v
              | RelationshipDeclaration _ \<Rightarrow> salt_visitRelationshipDeclaration v) (\<lambda>salt.
     js_bind (case salt of
                None \<Rightarrow> js_return ()
              | Some s \<Rightarrow> setSalt a (getName property) s) (\<lambda>_.
     salt_properties n mm properties a)))"
| "salt_visitField n mm isArray ty v =
     (if isArray then js_throw (Error ''Not implemented for Array fields'')
      else case ty of
        Primitive \<Rightarrow> js_bind (randomBytes 32) (\<lambda>salt. js_return (Some salt))
      | Enum \<Rightarrow> js_throw (Error ''Not implemented for Enum fields'')
      | Class _ \<Rightarrow>
          (case n of
             0 \<Rightarrow> js_throw RangeError
           | Suc m \<Rightarrow>
               js_bind (getFullyQualifiedType v) (\<lambda>t.
               js_bind (getType mm t) (\<lambda>classDeclaration.
               js_bind (salt_visitClassDeclaration m mm classDeclaration v) (\<lambda>_.
               js_return None)))))"
  by pat_completeness auto

termination
  by (relation "measures
        [\<lambda>x. case x of Inl (n, _) \<Rightarrow> n | Inr (Inl (n, _)) \<Rightarrow> n | Inr (Inr (n, _)) \<Rightarrow> n,
         \<lambda>x. case x of Inl _ \<Rightarrow> 2 | Inr (Inl _) \<Rightarrow> 1 | Inr (Inr _) \<Rightarrow> 0,
         \<lambda>x. case x of Inr (Inl (_, _, ps, _)) \<Rightarrow> length ps | _ \<Rightarrow> 0]") auto

subsection \<open>RootVisitor\<close>

text \<open>
  \<^verbatim>\<open>visitRelationshipDeclaration\<close> pops once: in the root and proof visitors the top of
  the stack is the salt, pushed after the value.
\<close>

definition root_visitRelationshipDeclaration :: "jsvalue \<Rightarrow> jsvalue \<Rightarrow> buffer js" where
  "root_visitRelationshipDeclaration v salt =
     (case salt of
        VRelationship _ \<Rightarrow> js_throw (Error ''Not implemented for Relationships'')
      | _ \<Rightarrow> js_throw (ExpectedRelationship salt))"

text \<open>The primitive branch of \<^verbatim>\<open>RootVisitor.visitField\<close>.\<close>

definition root_primitive :: "jsvalue \<Rightarrow> jsvalue \<Rightarrow> buffer js" where
  "root_primitive v salt =
     js_lift
       (case JSON_stringify v of
          Inl e \<Rightarrow> Inl e
        | Inr serializedValue \<Rightarrow>
            (case hash_update createHash (serialized serializedValue) of
               Inl e \<Rightarrow> Inl e
             | Inr hash \<Rightarrow>
                 (case hash_update hash salt of
                    Inl e \<Rightarrow> Inl e
                  | Inr hash' \<Rightarrow> Inr (digest hash'))))"

function (sequential)
      root_visitClassDeclaration :: "nat \<Rightarrow> modelManager \<Rightarrow> classDeclaration \<Rightarrow> jsvalue \<Rightarrow> buffer js"
  and root_properties :: "nat \<Rightarrow> modelManager \<Rightarrow> property list \<Rightarrow> nat \<Rightarrow> buffer list js"
  and root_visitField :: "nat \<Rightarrow> modelManager \<Rightarrow> bool \<Rightarrow> fieldType \<Rightarrow> jsvalue \<Rightarrow> jsvalue \<Rightarrow> buffer js"
where
  "root_visitClassDeclaration n mm classDeclaration typed =
     js_bind (isResource typed) (\<lambda>ok.
       case typed of
         VResource a \<Rightarrow>
           if ok then
             js_bind (root_properties n mm classDeclaration a) (\<lambda>hashes.
             js_return (digest (foldl (\<lambda>root hash. root @ hash) createHash hashes)))
           else js_throw (ExpectedResource typed)
       | _ \<Rightarrow> js_throw (ExpectedResource typed))"
| "root_properties n mm [] a = js_return []"
| "root_properties n mm (property # properties) a =
     js_bind (getProperty a (getName property)) (\<lambda>v.
     js_bind (getSalt a (getName property)) (\<lambda>salt.
     js_bind (case property of
                Field _ isArray ty \<Rightarrow> root_visitField n mm isArray ty v salt
              | RelationshipDeclaration _ \<Rightarrow> root_visitRelationshipDeclaration v salt) (\<lambda>hash.
     js_bind (root_properties n mm properties a) (\<lambda>hashes.
     js_return (hash # hashes)))))"
| "root_visitField n mm isArray ty v salt =
     (if isArray then js_throw (Error ''Not implemented for Array fields'')
      else case ty of
        Primitive \<Rightarrow> root_primitive v salt
      | Enum \<Rightarrow> js_throw (Error ''Not implemented for Enum fields'')
      | Class _ \<Rightarrow>
          (case n of
             0 \<Rightarrow> js_throw RangeError
           | Suc m \<Rightarrow>
               js_bind (getFullyQualifiedType v) (\<lambda>t.
               js_bind (getType mm t) (\<lambda>classDeclaration.
               root_visitClassDeclaration m mm classDeclaration v))))"
  by pat_completeness auto

termination
  by (relation "measures
        [\<lambda>x. case x of Inl (n, _) \<Rightarrow> n | Inr (Inl (n, _)) \<Rightarrow> n | Inr (Inr (n, _)) \<Rightarrow> n,
         \<lambda>x. case x of Inl _ \<Rightarrow> 2 | Inr (Inl _) \<Rightarrow> 1 | Inr (Inr _) \<Rightarrow> 0,
         \<lambda>x. case x of Inr (Inl (_, _, ps, _)) \<Rightarrow> length ps | _ \<Rightarrow> 0]") auto

subsection \<open>ProofVisitor\<close>

text \<open>
  What a visit returns: a digest, the disclosure \<^verbatim>\<open>{$value: true, value, salt}\<close>, or the
  array of results of a class declaration.
\<close>

datatype rawProof =
    Digest buffer
  | Disclosure jsvalue jsvalue
  | Results "rawProof list"

text \<open>\<^verbatim>\<open>pathEquals\<close> of \<^verbatim>\<open>utils.js\<close>: the same length and the same name at every index.\<close>

fun pathEquals_from :: "string list \<Rightarrow> string list \<Rightarrow> bool" where
  "pathEquals_from [] _ = True"
| "pathEquals_from (x # xs) [] = False"
| "pathEquals_from (x # xs) (y # ys) = (if x \<noteq> y then False else pathEquals_from xs ys)"

definition pathEquals :: "string list \<Rightarrow> string list \<Rightarrow> bool" where
  "pathEquals p1 p2 = (if length p1 \<noteq> length p2 then False else pathEquals_from p1 p2)"

definition proof_visitRelationshipDeclaration :: "jsvalue \<Rightarrow> jsvalue \<Rightarrow> rawProof js" where
  "proof_visitRelationshipDeclaration v salt =
     (case salt of
        VRelationship _ \<Rightarrow> js_throw (Error ''Not implemented for Relationships'')
      | _ \<Rightarrow> js_throw (ExpectedRelationship salt))"

text \<open>The primitive branch of \<^verbatim>\<open>ProofVisitor.visitField\<close>.\<close>

definition proof_primitive :: "jsvalue \<Rightarrow> jsvalue \<Rightarrow> string list \<Rightarrow> string list \<Rightarrow> rawProof js" where
  "proof_primitive v salt path cur =
     (if pathEquals path cur then js_return (Disclosure v salt)
      else
        js_lift
          (case JSON_stringify v of
             Inl e \<Rightarrow> Inl e
           | Inr serializedValue \<Rightarrow>
               (case hash_update createHash (serialized serializedValue) of
                  Inl e \<Rightarrow> Inl e
                | Inr hash \<Rightarrow>
                    (case hash_update hash salt of
                       Inl e \<Rightarrow> Inl e
                     | Inr hash' \<Rightarrow> Inr (Digest (digest hash'))))))"

function (sequential)
      proof_visitClassDeclaration ::
        "nat \<Rightarrow> modelManager \<Rightarrow> classDeclaration \<Rightarrow> jsvalue \<Rightarrow> string list \<Rightarrow> string list \<Rightarrow> rawProof list js"
  and proof_properties ::
        "nat \<Rightarrow> modelManager \<Rightarrow> property list \<Rightarrow> nat \<Rightarrow> string list \<Rightarrow> string list \<Rightarrow> rawProof list js"
  and proof_visitField ::
        "nat \<Rightarrow> modelManager \<Rightarrow> bool \<Rightarrow> fieldType \<Rightarrow> jsvalue \<Rightarrow> jsvalue \<Rightarrow> string list \<Rightarrow> string list \<Rightarrow> rawProof js"
where
  "proof_visitClassDeclaration n mm classDeclaration typed path cur =
     js_bind (isResource typed) (\<lambda>ok.
       case typed of
         VResource a \<Rightarrow>
           if ok then proof_properties n mm classDeclaration a path cur
           else js_throw (ExpectedResource typed)
       | _ \<Rightarrow> js_throw (ExpectedResource typed))"
| "proof_properties n mm [] a path cur = js_return []"
| "proof_properties n mm (property # properties) a path cur =
     js_bind (getProperty a (getName property)) (\<lambda>v.
     js_bind (getSalt a (getName property)) (\<lambda>salt.
     js_bind (case property of
                Field _ isArray ty \<Rightarrow>
                  proof_visitField n mm isArray ty v salt path (cur @ [getName property])
              | RelationshipDeclaration _ \<Rightarrow> proof_visitRelationshipDeclaration v salt) (\<lambda>result.
     js_bind (proof_properties n mm properties a path cur) (\<lambda>results.
     js_return (result # results)))))"
| "proof_visitField n mm isArray ty v salt path cur =
     (if isArray then js_throw (Error ''Not implemented for Array fields'')
      else case ty of
        Primitive \<Rightarrow> proof_primitive v salt path cur
      | Enum \<Rightarrow> js_throw (Error ''Not implemented for Enum fields'')
      | Class _ \<Rightarrow>
          (case n of
             0 \<Rightarrow> js_throw RangeError
           | Suc m \<Rightarrow>
               js_bind (getFullyQualifiedType v) (\<lambda>t.
               js_bind (getType mm t) (\<lambda>classDeclaration.
               js_bind (proof_visitClassDeclaration m mm classDeclaration v path cur) (\<lambda>results.
               js_return (Results results))))))"
  by pat_completeness auto

termination
  by (relation "measures
        [\<lambda>x. case x of Inl (n, _) \<Rightarrow> n | Inr (Inl (n, _)) \<Rightarrow> n | Inr (Inr (n, _)) \<Rightarrow> n,
         \<lambda>x. case x of Inl _ \<Rightarrow> 2 | Inr (Inl _) \<Rightarrow> 1 | Inr (Inr _) \<Rightarrow> 0,
         \<lambda>x. case x of Inr (Inl (_, _, ps, _)) \<Rightarrow> length ps | _ \<Rightarrow> 0]") auto

subsection \<open>VerifyVisitor\<close>

text \<open>
  The verify visitor walks the schema alone.  \<^verbatim>\<open>parameters.hashes\<close>, consumed from the
  front by \<^verbatim>\<open>shift()\<close>, is passed in and returned.  Destructuring the \<^verbatim>\<open>undefined\<close> that
  \<^verbatim>\<open>shift()\<close> returns on an empty array raises a \<^verbatim>\<open>TypeError\<close>.
\<close>

type_synonym parsedHashes = "(buffer list \<times> buffer list) list"

text \<open>The primitive branch of \<^verbatim>\<open>VerifyVisitor.visitField\<close>.\<close>

definition verify_primitive :: "string list \<Rightarrow> string list \<Rightarrow> jsvalue \<Rightarrow> jsvalue \<Rightarrow> buffer option js" where
  "verify_primitive path cur v salt =
     (if pathEquals path cur then
        js_lift
          (case JSON_stringify v of
             Inl e \<Rightarrow> Inl e
           | Inr serializedValue \<Rightarrow>
               (case hash_update createHash (serialized serializedValue) of
                  Inl e \<Rightarrow> Inl e
                | Inr hash \<Rightarrow>
                    (case hash_update hash salt of
                       Inl e \<Rightarrow> Inl e
                     | Inr hash' \<Rightarrow> Inr (Some (digest hash')))))
      else js_return None)"

text \<open>What \<^verbatim>\<open>visitClassDeclaration\<close> does once a property has returned a digest.\<close>

definition verify_combine :: "buffer \<Rightarrow> parsedHashes \<Rightarrow> (buffer option \<times> parsedHashes) js" where
  "verify_combine result hashes =
     (case hashes of
        [] \<Rightarrow> js_throw (TypeError ''undefined is not iterable'')
      | (bef, aft) # rest \<Rightarrow>
          js_return
            (Some (digest (foldl (\<lambda>hash e. hash @ e)
                     (foldl (\<lambda>hash e. hash @ e) createHash bef @ result) aft)),
             rest))"

function (sequential)
      verify_visitClassDeclaration ::
        "nat \<Rightarrow> modelManager \<Rightarrow> classDeclaration \<Rightarrow> string list \<Rightarrow> string list \<Rightarrow> jsvalue \<Rightarrow> jsvalue
           \<Rightarrow> parsedHashes \<Rightarrow> (buffer option \<times> parsedHashes) js"
  and verify_visitField ::
        "nat \<Rightarrow> modelManager \<Rightarrow> bool \<Rightarrow> fieldType \<Rightarrow> string list \<Rightarrow> string list \<Rightarrow> jsvalue \<Rightarrow> jsvalue
           \<Rightarrow> parsedHashes \<Rightarrow> (buffer option \<times> parsedHashes) js"
where
  "verify_visitClassDeclaration n mm [] path cur v salt hashes = js_return (None, hashes)"
| "verify_visitClassDeclaration n mm (property # properties) path cur v salt hashes =
     js_bind (case property of
                Field name isArray ty \<Rightarrow>
                  verify_visitField n mm isArray ty path (cur @ [name]) v salt hashes
              | RelationshipDeclaration _ \<Rightarrow>
                  js_throw (Error ''Not implemented for Relationships'')) (\<lambda>(result, hashes').
       case result of
         Some r \<Rightarrow> verify_combine r hashes'
       | None \<Rightarrow> verify_visitClassDeclaration n mm properties path cur v salt hashes')"
| "verify_visitField n mm isArray ty path cur v salt hashes =
     (if isArray then js_throw (Error ''Not implemented for Array fields'')
      else case ty of
        Primitive \<Rightarrow> js_bind (verify_primitive path cur v salt) (\<lambda>r. js_return (r, hashes))
      | Enum \<Rightarrow> js_throw (Error ''Not implemented for Enum fields'')
      | Class c \<Rightarrow>
          (case n of
             0 \<Rightarrow> js_throw RangeError
           | Suc m \<Rightarrow>
               js_bind (getType mm c) (\<lambda>classDeclaration.
               verify_visitClassDeclaration m mm classDeclaration path cur v salt hashes)))"
  by pat_completeness auto

termination
  by (relation "measures
        [\<lambda>x. case x of Inl (n, _) \<Rightarrow> n | Inr (n, _) \<Rightarrow> n,
         \<lambda>x. case x of Inl _ \<Rightarrow> 1 | Inr _ \<Rightarrow> 0,
         \<lambda>x. case x of Inl (_, _, ps, _) \<Rightarrow> length ps | _ \<Rightarrow> 0]") auto

section \<open>The Merkle class\<close>

text \<open>\<^verbatim>\<open>splitProof\<close> of \<^verbatim>\<open>utils.js\<close>: every entry that is not a buffer replaces the child.\<close>

fun splitProof_loop ::
  "rawProof list \<Rightarrow> buffer list \<times> rawProof option \<times> buffer list
     \<Rightarrow> buffer list \<times> rawProof option \<times> buffer list" where
  "splitProof_loop [] acc = acc"
| "splitProof_loop (e # p) (bef, child, aft) =
     (case e of
        Digest b \<Rightarrow>
          (if child = None then splitProof_loop p (bef @ [b], child, aft)
           else splitProof_loop p (bef, child, aft @ [b]))
      | _ \<Rightarrow> splitProof_loop p (bef, Some e, aft))"

definition splitProof :: "rawProof list \<Rightarrow> buffer list \<times> rawProof option \<times> buffer list" where
  "splitProof p = splitProof_loop p ([], None, [])"

lemma splitProof_loop_child:
  "splitProof_loop p (b, c, a) = (b', Some x, a') \<Longrightarrow> c = Some x \<or> x \<in> set p"
  by (induction p arbitrary: b c a) (auto split: rawProof.splits if_splits)

lemma splitProof_child: "splitProof p = (b, Some x, a) \<Longrightarrow> x \<in> set p"
  using splitProof_loop_child [of p "[]" None "[]" b x a] by (simp add: splitProof_def)

text \<open>The proof that \<^verbatim>\<open>Merkle.proof\<close> returns.\<close>

record merkleProof =
  p_hashes :: "(string list \<times> string list) list"
  p_value :: jsvalue
  p_salt :: string

text \<open>
  The \<^verbatim>\<open>while (p)\<close> loop of \<^verbatim>\<open>Merkle.proof\<close>.  A null child makes \<^verbatim>\<open>child.$value\<close> a
  \<^verbatim>\<open>TypeError\<close>; so does \<^verbatim>\<open>child.salt.toString\<close> on a disclosure whose salt is undefined
  or null.
  \<^verbatim>\<open>splitProof\<close> never returns a digest as the child.
\<close>

function flatten :: "rawProof list \<Rightarrow> (string list \<times> string list) list \<Rightarrow> error + merkleProof" where
  "flatten p hashes =
     (case splitProof p of (bef, child, aft) \<Rightarrow>
        (case child of
           None \<Rightarrow> Inl (TypeError ''Cannot read properties of null (reading $value)'')
         | Some (Disclosure v salt) \<Rightarrow>
             (case salt of
                VBuffer s \<Rightarrow>
                  Inr \<lparr>p_hashes = (map toHex bef, map toHex aft) # hashes,
                       p_value = v, p_salt = toHex s\<rparr>
              | VNull \<Rightarrow> Inl (TypeError ''Cannot read properties of null (reading toString)'')
              | _ \<Rightarrow> Inl (TypeError ''Cannot read properties of undefined (reading toString)''))
         | Some (Results q) \<Rightarrow> flatten q ((map toHex bef, map toHex aft) # hashes)
         | Some (Digest d) \<Rightarrow> Inl (TypeError ''Cannot read properties of null (reading $value)'')))"
  by pat_completeness auto

termination
proof (relation "measure (\<lambda>(p, hashes). size_list size p)", goal_cases)
  case 1
  show ?case by simp
next
  case (2 p hashes bef rest child aft x q)
  then have "Results q \<in> set p"
    using splitProof_child [of p bef "Results q" aft] by simp
  then have "size (Results q) \<le> size_list size p"
    by (simp add: size_list_estimation')
  then show ?case by simp
qed

declare flatten.simps [simp del]

definition Merkle_salt :: "nat \<Rightarrow> modelManager \<Rightarrow> jsvalue \<Rightarrow> unit js" where
  "Merkle_salt n mm typed =
     js_bind (getFullyQualifiedType typed) (\<lambda>t.
     js_bind (getType mm t) (\<lambda>classDeclaration.
     salt_visitClassDeclaration n mm classDeclaration typed))"

definition Merkle_root :: "nat \<Rightarrow> modelManager \<Rightarrow> jsvalue \<Rightarrow> string js" where
  "Merkle_root n mm typed =
     js_bind (getFullyQualifiedType typed) (\<lambda>t.
     js_bind (getType mm t) (\<lambda>classDeclaration.
     js_bind (root_visitClassDeclaration n mm classDeclaration typed) (\<lambda>root.
     js_return (toHex root))))"

definition Merkle_proof :: "nat \<Rightarrow> modelManager \<Rightarrow> jsvalue \<Rightarrow> string list \<Rightarrow> merkleProof js" where
  "Merkle_proof n mm typed path =
     js_bind (getFullyQualifiedType typed) (\<lambda>t.
     js_bind (getType mm t) (\<lambda>classDeclaration.
     js_bind (proof_visitClassDeclaration n mm classDeclaration typed path []) (\<lambda>proof.
     js_lift (flatten proof []))))"

definition Merkle_verify ::
  "nat \<Rightarrow> modelManager \<Rightarrow> string \<Rightarrow> string \<Rightarrow> string list \<Rightarrow> string \<Rightarrow> merkleProof \<Rightarrow> bool js" where
  "Merkle_verify n mm ns type path root proof =
     js_bind (getType mm (ns @ ''.'' @ type)) (\<lambda>classDeclaration.
     js_bind (verify_visitClassDeclaration n mm classDeclaration path [] (p_value proof)
                (VBuffer (fromHex (p_salt proof)))
                (map (\<lambda>(bef, aft). (map fromHex bef, map fromHex aft)) (p_hashes proof)))
       (\<lambda>(actualRoot, _).
          case actualRoot of
            None \<Rightarrow> js_throw (TypeError ''Cannot read properties of null (reading toString)'')
          | Some r \<Rightarrow> js_return (toHex r = root)))"

section \<open>Notions used by the properties\<close>

text \<open>A computation is read-only when it returns the world it was given.\<close>

definition readonly :: "'a js \<Rightarrow> bool" where
  "readonly m = (\<forall>w. snd (m w) = w)"

text \<open>
  The leaf hash in the specification's words: SHA-256 of the UTF-8 bytes of the canonical
  JSON text of the value, followed by the salt.
\<close>

definition H_leaf :: "string \<Rightarrow> buffer \<Rightarrow> buffer" where
  "H_leaf canonical salt = sha256 (utf8 canonical @ salt)"

text \<open>The node hash in the specification's words: SHA-256 of the child digests, concatenated.\<close>

definition H_node :: "buffer list \<Rightarrow> buffer" where
  "H_node ds = sha256 (concat ds)"

text \<open>The characters of a lowercase hexadecimal string.\<close>

definition lowercase_hex :: "char set" where
  "lowercase_hex = set ''0123456789abcdef''"

text \<open>Whether a text occurs in another, for what an error message mentions.\<close>

fun occurs_in :: "string \<Rightarrow> string \<Rightarrow> bool" where
  "occurs_in t [] = (t = [])"
| "occurs_in t (c # cs) = (take (length t) (c # cs) = t \<or> occurs_in t cs)"

section \<open>Scenarios\<close>

text \<open>S1: \<^verbatim>\<open>org.test.Thing { String name }\<close>, the record \<^verbatim>\<open>{name: "alice"}\<close>, a salt of 32 zero bytes.\<close>

definition S1_model :: modelManager where
  "S1_model = [''org.test.Thing'' \<mapsto> [Field ''name'' False Primitive]]"

definition S1_world :: world where
  "S1_world =
     \<lparr>heap = [0 \<mapsto> \<lparr>fqType = ''org.test.Thing'',
                       props = [''name'' \<mapsto> VString ''alice''],
                       salts = [''name'' \<mapsto> replicate 32 0]\<rparr>],
      entropy = (\<lambda>i. word_of_nat i)\<rparr>"

text \<open>The same record before the salt engine has run.\<close>

definition S1_unsalted :: world where
  "S1_unsalted =
     \<lparr>heap = [0 \<mapsto> \<lparr>fqType = ''org.test.Thing'',
                       props = [''name'' \<mapsto> VString ''alice''],
                       salts = Map.empty\<rparr>],
      entropy = (\<lambda>i. word_of_nat i)\<rparr>"

text \<open>
  S2: \<^verbatim>\<open>org.test.Pair { String a, Boolean b }\<close>, the record \<^verbatim>\<open>{a: "x", b: true}\<close>, salted by
  the salt engine from an entropy source that counts.
\<close>

definition S2_model :: modelManager where
  "S2_model = [''org.test.Pair'' \<mapsto> [Field ''a'' False Primitive, Field ''b'' False Primitive]]"

definition S2_fresh :: world where
  "S2_fresh =
     \<lparr>heap = [0 \<mapsto> \<lparr>fqType = ''org.test.Pair'',
                       props = [''a'' \<mapsto> VString ''x'', ''b'' \<mapsto> VBoolean True],
                       salts = Map.empty\<rparr>],
      entropy = (\<lambda>i. word_of_nat i)\<rparr>"

definition S2_world :: world where
  "S2_world = snd (Merkle_salt 0 S2_model (VResource 0) S2_fresh)"

definition S2_salt_a :: buffer where
  "S2_salt_a = map word_of_nat [0..<32]"

definition S2_salt_b :: buffer where
  "S2_salt_b = map (\<lambda>i. word_of_nat (i + 32)) [0..<32]"

definition S2_root :: string where
  "S2_root = toHex (sha256 (sha256 (utf8 (json_quote ''x'') @ S2_salt_a)
                           @ sha256 (utf8 ''true'' @ S2_salt_b)))"

definition S2_proof_a :: merkleProof where
  "S2_proof_a =
     \<lparr>p_hashes = [([], [toHex (sha256 (utf8 ''true'' @ S2_salt_b))])],
      p_value = VString ''x'',
      p_salt = toHex S2_salt_a\<rparr>"

text \<open>
  A record with a nested record beside a primitive field:
  \<^verbatim>\<open>org.test.Outer { String a, Inner inner }\<close>, \<^verbatim>\<open>org.test.Inner { String k }\<close>, the record
  \<^verbatim>\<open>{a: "x", inner: {k: "v"}}\<close>, salted by the salt engine.
\<close>

definition nested_model :: modelManager where
  "nested_model =
     [''org.test.Outer'' \<mapsto> [Field ''a'' False Primitive, Field ''inner'' False (Class ''org.test.Inner'')],
      ''org.test.Inner'' \<mapsto> [Field ''k'' False Primitive]]"

definition nested_fresh :: world where
  "nested_fresh =
     \<lparr>heap = [0 \<mapsto> \<lparr>fqType = ''org.test.Outer'',
                       props = [''a'' \<mapsto> VString ''x'', ''inner'' \<mapsto> VResource 1],
                       salts = Map.empty\<rparr>,
              1 \<mapsto> \<lparr>fqType = ''org.test.Inner'',
                       props = [''k'' \<mapsto> VString ''v''],
                       salts = Map.empty\<rparr>],
      entropy = (\<lambda>i. word_of_nat i)\<rparr>"

definition nested_world :: world where
  "nested_world = snd (Merkle_salt 1 nested_model (VResource 0) nested_fresh)"

text \<open>S6: \<^verbatim>\<open>org.test.Tagged { String[] tags }\<close>, and the same class with its property renamed.\<close>

definition S6_model :: modelManager where
  "S6_model = [''org.test.Tagged'' \<mapsto> [Field ''tags'' True Primitive]]"

definition S6_world :: world where
  "S6_world =
     \<lparr>heap = [0 \<mapsto> \<lparr>fqType = ''org.test.Tagged'',
                       props = [''tags'' \<mapsto> VArray [VString ''red'', VString ''blue'']],
                       salts = Map.empty\<rparr>],
      entropy = (\<lambda>i. word_of_nat i)\<rparr>"

text \<open>The salts that the salt engine draws for the nested scenario.\<close>

definition nested_salt_a :: buffer where
  "nested_salt_a = map word_of_nat [0..<32]"

definition nested_salt_k :: buffer where
  "nested_salt_k = map (\<lambda>i. word_of_nat (i + 32)) [0..<32]"

text \<open>The root of the S1 record and the proof of its one leaf.\<close>

definition S1_root_value :: string where
  "S1_root_value = toHex (sha256 (sha256 (utf8 (json_quote ''alice'') @ replicate 32 0)))"

definition S1_proof :: merkleProof where
  "S1_proof = \<lparr>p_hashes = [([], [])], p_value = VString ''alice'', p_salt = toHex (replicate 32 0)\<rparr>"

section \<open>Leaves, salts and changes of the heap\<close>

text \<open>
  A path that addresses a primitive leaf of a record, through primitive and nested-class
  fields only: the class of each record on the way is the one the model manager has for
  the record's own type, as in the walk of the salt, root and proof visitors.
\<close>

inductive leaf_at :: "modelManager \<Rightarrow> (nat \<rightharpoonup> resource) \<Rightarrow> jsvalue \<Rightarrow> string list \<Rightarrow> bool"
  for mm :: modelManager and h :: "nat \<rightharpoonup> resource" where
  leaf:
    "h a = Some r \<Longrightarrow> mm (fqType r) = Some cd \<Longrightarrow> Field name False Primitive \<in> set cd
       \<Longrightarrow> leaf_at mm h (VResource a) [name]"
| nested:
    "h a = Some r \<Longrightarrow> mm (fqType r) = Some cd \<Longrightarrow> Field name False (Class c) \<in> set cd
       \<Longrightarrow> props r name = Some v \<Longrightarrow> leaf_at mm h v path
       \<Longrightarrow> leaf_at mm h (VResource a) (name # path)"

code_pred leaf_at .

text \<open>Whether a result of the proof visitor holds a disclosure.\<close>

fun discloses :: "rawProof \<Rightarrow> bool" where
  "discloses (Digest d) = False"
| "discloses (Disclosure v salt) = True"
| "discloses (Results rs) = list_ex discloses rs"

text \<open>
  A record that contains a primitive leaf whose salt was never generated: the salt store
  of the record that owns the leaf has no entry for the property name.
\<close>

inductive lacks_salt :: "modelManager \<Rightarrow> (nat \<rightharpoonup> resource) \<Rightarrow> jsvalue \<Rightarrow> bool"
  for mm :: modelManager and h :: "nat \<rightharpoonup> resource" where
  here:
    "h a = Some r \<Longrightarrow> mm (fqType r) = Some cd \<Longrightarrow> Field name False Primitive \<in> set cd
       \<Longrightarrow> salts r name = None \<Longrightarrow> lacks_salt mm h (VResource a)"
| below:
    "h a = Some r \<Longrightarrow> mm (fqType r) = Some cd \<Longrightarrow> Field name False (Class c) \<in> set cd
       \<Longrightarrow> props r name = Some v \<Longrightarrow> lacks_salt mm h v
       \<Longrightarrow> lacks_salt mm h (VResource a)"

code_pred lacks_salt .

text \<open>The S1 record with its salt but with no value for its property.\<close>

definition S1_no_value :: world where
  "S1_no_value =
     \<lparr>heap = [0 \<mapsto> \<lparr>fqType = ''org.test.Thing'',
                       props = Map.empty,
                       salts = [''name'' \<mapsto> replicate 32 0]\<rparr>],
      entropy = (\<lambda>i. word_of_nat i)\<rparr>"

text \<open>
  The salt of the leaf at a path: the entry, under the last name of the path, of the salt
  store of the record that the names before it lead to, which is the record that owns
  the leaf.
\<close>

fun salt_at :: "(nat \<rightharpoonup> resource) \<Rightarrow> jsvalue \<Rightarrow> string list \<Rightarrow> buffer option" where
  "salt_at h v [] = None"
| "salt_at h v [name] =
     (case v of
        VResource a \<Rightarrow> (case h a of None \<Rightarrow> None | Some r \<Rightarrow> salts r name)
      | _ \<Rightarrow> None)"
| "salt_at h v (name # rest) =
     (case v of
        VResource a \<Rightarrow>
          (case h a of
             None \<Rightarrow> None
           | Some r \<Rightarrow> (case props r name of None \<Rightarrow> None | Some v' \<Rightarrow> salt_at h v' rest))
      | _ \<Rightarrow> None)"

text \<open>A salt that is there and has exactly 32 bytes.\<close>

definition salt32 :: "buffer option \<Rightarrow> bool" where
  "salt32 so = (case so of None \<Rightarrow> False | Some s \<Rightarrow> length s = 32)"

text \<open>A name of a primitive field of the class of a record.\<close>

definition own_leaf :: "modelManager \<Rightarrow> resource \<Rightarrow> string \<Rightarrow> bool" where
  "own_leaf mm r name =
     (case mm (fqType r) of None \<Rightarrow> False | Some cd \<Rightarrow> Field name False Primitive \<in> set cd)"

text \<open>Every primitive leaf reachable from a value has its salt of 32 bytes.\<close>

definition salted :: "modelManager \<Rightarrow> (nat \<rightharpoonup> resource) \<Rightarrow> jsvalue \<Rightarrow> bool" where
  "salted mm h v = (\<forall>path. leaf_at mm h v path \<longrightarrow> salt32 (salt_at h v path))"

text \<open>
  How the salt engine may change the heap: no record appears or disappears, types and
  property values stay, and a salt store changes only under the name of a primitive
  field of the record's own class, to a salt of 32 bytes.
\<close>

definition grows :: "modelManager \<Rightarrow> (nat \<rightharpoonup> resource) \<Rightarrow> (nat \<rightharpoonup> resource) \<Rightarrow> bool" where
  "grows mm h h' =
     (\<forall>a. (h a = None \<longrightarrow> h' a = None)
        \<and> (\<forall>r. h a = Some r \<longrightarrow>
              (\<exists>r'. h' a = Some r' \<and> fqType r' = fqType r \<and> props r' = props r
                 \<and> (\<forall>name. salts r' name = salts r name
                       \<or> (own_leaf mm r name \<and> salt32 (salts r' name))))))"

section \<open>Flat records\<close>

text \<open>
  A class all of whose properties are primitive fields that are not arrays, and what a
  record of it holds under a property name: \<^verbatim>\<open>undefined\<close> where nothing is stored.
\<close>

definition primitive_fields :: "property list \<Rightarrow> bool" where
  "primitive_fields ps = (\<forall>p \<in> set ps. \<exists>name. p = Field name False Primitive)"

definition value_of :: "resource \<Rightarrow> string \<Rightarrow> jsvalue" where
  "value_of r name = (case props r name of None \<Rightarrow> VUndefined | Some v \<Rightarrow> v)"

definition salt_of :: "resource \<Rightarrow> string \<Rightarrow> jsvalue" where
  "salt_of r name = (case salts r name of None \<Rightarrow> VUndefined | Some s \<Rightarrow> VBuffer s)"

section \<open>Basic facts\<close>

declare salt_visitClassDeclaration.simps [simp del] salt_visitField.simps [simp del]
declare root_visitClassDeclaration.simps [simp del] root_visitField.simps [simp del]
declare proof_visitClassDeclaration.simps [simp del] proof_visitField.simps [simp del]
declare verify_visitField.simps [simp del]

lemmas js_defs = js_bind_def js_return_def js_throw_def js_lift_def

lemmas visitor_simps =
  salt_visitClassDeclaration.simps salt_visitField.simps
  root_visitClassDeclaration.simps root_visitField.simps
  proof_visitClassDeclaration.simps proof_visitField.simps
  verify_visitField.simps

lemmas record_defs =
  getProperty_def getSalt_def setSalt_def isResource_def getFullyQualifiedType_def getType_def
  randomBytes_def

lemmas hash_defs =
  root_primitive_def proof_primitive_def verify_primitive_def verify_combine_def
  hash_update_def createHash_def digest_def serialized_def

lemmas api_defs = Merkle_salt_def Merkle_root_def Merkle_proof_def Merkle_verify_def

lemma foldl_append_concat: "foldl (\<lambda>h e. h @ e) acc xs = acc @ concat xs"
  by (induction xs arbitrary: acc) auto

lemma pathEquals_from_iff: "length p = length q \<Longrightarrow> pathEquals_from p q = (p = q)"
  by (induction p q rule: pathEquals_from.induct) auto

lemma pathEquals_iff: "pathEquals p q = (p = q)"
  by (auto simp: pathEquals_def pathEquals_from_iff)

lemma hexval_hexdigit: "n < 16 \<Longrightarrow> hexval (hexdigit n) = Some n"
proof -
  assume "n < 16"
  then have "n \<in> set [0..<16]" by simp
  then have "n \<in> {0, 1, 2, 3, 4, 5, 6, 7, 8, 9, 10, 11, 12, 13, 14, 15}"
    by (simp add: upt_rec numeral_eq_Suc)
  then show ?thesis
    by (auto simp: hexval_def hexdigit_def)
qed

lemma fromHex_toHex: "fromHex (toHex bs) = bs"
proof (induction bs)
  case Nil
  show ?case by (simp add: toHex_def)
next
  case (Cons b bs)
  have d: "unat b div 16 < 16"
    using unsigned_less [of b, where 'a = nat] by (simp add: less_mult_imp_div_less)
  have m: "unat b mod 16 < 16" by simp
  from Cons show ?case
    by (simp add: toHex_def hexval_hexdigit [OF d] hexval_hexdigit [OF m])
qed

lemma map_fromHex_toHex: "map fromHex (map toHex bs) = bs"
  by (induction bs) (simp_all add: fromHex_toHex)

lemma length_sha_out: "length (sha_out s) = 32"
  by (cases s rule: sha_out.cases) (simp add: be32_def)

lemma length_sha256: "length (sha256 m) = 32"
  by (simp add: sha256_def Let_def length_sha_out)

lemma length_toHex: "length (toHex bs) = 2 * length bs"
  by (induction bs) (auto simp: toHex_def)

lemma hexdigit_lowercase: "n < 16 \<Longrightarrow> hexdigit n \<in> lowercase_hex"
  unfolding hexdigit_def lowercase_hex_def by (rule nth_mem) simp

lemma toHex_lowercase: "set (toHex bs) \<subseteq> lowercase_hex"
proof (induction bs)
  case Nil
  show ?case by (simp add: toHex_def)
next
  case (Cons b bs)
  have d: "unat b div 16 < 16"
    using unsigned_less [of b, where 'a = nat] by (simp add: less_mult_imp_div_less)
  have m: "unat b mod 16 < 16" by simp
  have "set (toHex (b # bs)) = {hexdigit (unat b div 16), hexdigit (unat b mod 16)} \<union> set (toHex bs)"
    by (auto simp: toHex_def)
  with Cons hexdigit_lowercase [OF d] hexdigit_lowercase [OF m] show ?case
    by simp
qed

lemma S2_world_eq:
  "S2_world =
     \<lparr>heap = [0 \<mapsto> \<lparr>fqType = ''org.test.Pair'',
                       props = [''a'' \<mapsto> VString ''x'', ''b'' \<mapsto> VBoolean True],
                       salts = [''a'' \<mapsto> S2_salt_a, ''b'' \<mapsto> S2_salt_b]\<rparr>],
      entropy = (\<lambda>i. word_of_nat (i + 64))\<rparr>"
  by (simp add: S2_world_def S2_fresh_def S2_model_def Merkle_salt_def js_defs record_defs
      visitor_simps S2_salt_a_def S2_salt_b_def add.commute add.left_commute)

subsection \<open>Read-only computations\<close>

lemma readonly_return [intro!, simp]: "readonly (js_return x)"
  by (simp add: readonly_def js_defs)

lemma readonly_throw [intro!, simp]: "readonly (js_throw e)"
  by (simp add: readonly_def js_defs)

lemma readonly_lift [intro!, simp]: "readonly (js_lift r)"
  by (simp add: readonly_def js_defs)

lemma readonly_bind [intro!]:
  "readonly m \<Longrightarrow> (\<And>x. readonly (f x)) \<Longrightarrow> readonly (js_bind m f)"
  by (auto simp: readonly_def js_defs split: prod.splits sum.splits) (metis snd_conv)+

lemma readonly_getProperty [intro!, simp]: "readonly (getProperty a name)"
  by (auto simp: readonly_def getProperty_def split: option.splits)

lemma readonly_getSalt [intro!, simp]: "readonly (getSalt a name)"
  by (auto simp: readonly_def getSalt_def split: option.splits)

lemma readonly_getFullyQualifiedType [intro!, simp]: "readonly (getFullyQualifiedType v)"
  by (auto simp: readonly_def getFullyQualifiedType_def split: option.splits jsvalue.splits)

lemma readonly_getType [intro!, simp]: "readonly (getType mm t)"
  by (auto simp: getType_def split: option.splits)

lemma readonly_isResource [intro!, simp]: "readonly (isResource v)"
  by (auto simp: readonly_def isResource_def)

lemma readonly_root_primitive [intro!, simp]: "readonly (root_primitive v salt)"
  by (simp add: root_primitive_def)

lemma readonly_proof_primitive [intro!, simp]: "readonly (proof_primitive v salt path cur)"
  by (simp add: proof_primitive_def)

lemma readonly_verify_primitive [intro!, simp]: "readonly (verify_primitive path cur v salt)"
  by (simp add: verify_primitive_def)

lemma readonly_verify_combine [intro!, simp]: "readonly (verify_combine r hashes)"
  by (auto simp: verify_combine_def split: list.splits)

lemma readonly_root_visitRelationshipDeclaration [intro!, simp]:
  "readonly (root_visitRelationshipDeclaration v salt)"
  by (auto simp: root_visitRelationshipDeclaration_def split: jsvalue.splits)

lemma readonly_proof_visitRelationshipDeclaration [intro!, simp]:
  "readonly (proof_visitRelationshipDeclaration v salt)"
  by (auto simp: proof_visitRelationshipDeclaration_def split: jsvalue.splits)

lemma readonly_root_visitor:
  "readonly (root_visitClassDeclaration n mm cd typed)"
  "readonly (root_properties n mm ps a)"
  "readonly (root_visitField n mm isArray ty v salt)"
proof (induction n mm cd typed and n mm ps a and n mm isArray ty v salt
       rule: root_visitClassDeclaration_root_properties_root_visitField.induct)
  case (1 n mm classDeclaration typed)
  from 1 [of _ True] show ?case
    by (auto simp: root_visitClassDeclaration.simps split: jsvalue.splits)
next
  case (2 n mm a)
  show ?case by simp
next
  case (3 n mm property properties a)
  then show ?case
    by (auto split: property.splits)
next
  case (4 n mm isArray ty v salt)
  then show ?case
    by (auto simp: root_visitField.simps split: fieldType.splits nat.splits)
qed

lemma readonly_proof_visitor:
  "readonly (proof_visitClassDeclaration n mm cd typed path cur)"
  "readonly (proof_properties n mm ps a path cur)"
  "readonly (proof_visitField n mm isArray ty v salt path cur)"
proof (induction n mm cd typed path cur and n mm ps a path cur and n mm isArray ty v salt path cur
       rule: proof_visitClassDeclaration_proof_properties_proof_visitField.induct)
  case (1 n mm classDeclaration typed path cur)
  from 1 [of _ True] show ?case
    by (auto simp: proof_visitClassDeclaration.simps split: jsvalue.splits)
next
  case (2 n mm a path cur)
  show ?case by simp
next
  case (3 n mm property properties a path cur)
  then show ?case
    by (auto split: property.splits)
next
  case (4 n mm isArray ty v salt path cur)
  then show ?case
    by (auto simp: proof_visitField.simps split: fieldType.splits nat.splits)
qed

lemma readonly_verify_visitor:
  "readonly (verify_visitClassDeclaration n mm cd path cur v salt hashes)"
  "readonly (verify_visitField n mm isArray ty path cur v salt hashes)"
proof (induction n mm cd path cur v salt hashes and n mm isArray ty path cur v salt hashes
       rule: verify_visitClassDeclaration_verify_visitField.induct)
  case (1 n mm path cur v salt hashes)
  show ?case by simp
next
  case (2 n mm property properties path cur v salt hashes)
  then show ?case
    by (auto split: property.splits option.splits)
next
  case (3 n mm isArray ty path cur v salt hashes)
  then show ?case
    by (auto simp: verify_visitField.simps split: fieldType.splits nat.splits)
qed

section \<open>Root, proof and verify are read-only\<close>

text \<open>
  By contrast, the salt engine does change the record: here it writes the salt of the
  one field of the S1 record.
\<close>

lemma salt_not_readonly: "snd (Merkle_salt 0 S1_model (VResource 0) S1_unsalted) \<noteq> S1_unsalted"
proof
  assume "snd (Merkle_salt 0 S1_model (VResource 0) S1_unsalted) = S1_unsalted"
  then have "heap (snd (Merkle_salt 0 S1_model (VResource 0) S1_unsalted)) 0 = heap S1_unsalted 0"
    by simp
  then have "\<lparr>fqType = ''org.test.Thing'', props = [''name'' \<mapsto> VString ''alice''],
              salts = [''name'' \<mapsto> map word_of_nat [0..<32]]\<rparr>
           = \<lparr>fqType = ''org.test.Thing'', props = [''name'' \<mapsto> VString ''alice''],
              salts = Map.empty\<rparr>"
    by (simp add: S1_unsalted_def S1_model_def api_defs js_defs record_defs visitor_simps)
  then have "[''name'' \<mapsto> map word_of_nat [0..<32]] ''name'' = (Map.empty :: string \<rightharpoonup> buffer) ''name''"
    by simp
  then show False by simp
qed

text \<open>
  Claim C9.  For every record, \<^verbatim>\<open>root(record)\<close>, \<^verbatim>\<open>proof(record, path)\<close> and \<^verbatim>\<open>verify\<close> leave
  the record's property values and salt store unchanged: whatever they return or raise,
  the world after the call (every record of the heap, nested ones included, with its
  properties and its salt store, and the entropy source) is the world before it.
\<close>

theorem root_proof_verify_readonly:
  "snd (Merkle_root n mm typed w) = w
   \<and> snd (Merkle_proof n mm typed path w) = w
   \<and> snd (Merkle_verify n mm ns type path root proof w) = w"
proof -
  have "readonly (Merkle_root n mm typed)"
    unfolding Merkle_root_def by (intro readonly_bind readonly_root_visitor) simp_all
  moreover have "readonly (Merkle_proof n mm typed path)"
    unfolding Merkle_proof_def by (intro readonly_bind readonly_proof_visitor) simp_all
  moreover have "readonly (Merkle_verify n mm ns type path root proof)"
    unfolding Merkle_verify_def
    by (intro readonly_bind readonly_verify_visitor) (auto split: option.splits)
  ultimately show ?thesis
    by (simp add: readonly_def)
qed

section \<open>Scenario S1: the root of a single-primitive record\<close>

lemma json_quote_alice: "utf8 (json_quote ''alice'') = [34, 97, 108, 105, 99, 101, 34]"
  by (simp add: json_quote_def json_escape_def utf8_def utf8_char_def)

text \<open>The digest of the scenario, computed from the definition of SHA-256 above.\<close>

lemma S1_digest:
  "toHex (sha256 (sha256 ([34, 97, 108, 105, 99, 101, 34] @ replicate 32 0)))
     = ''d5a65d82b78b656d8303d29d93ba23621ab94a43c138fe18adf1044dbd4e2be2''"
  by code_simp

text \<open>
  Claim C6.  For a class with the single String property \<^verbatim>\<open>name\<close>, a record with the value
  \<^verbatim>\<open>"alice"\<close> and a salt of 32 zero bytes for \<^verbatim>\<open>name\<close>, the root is the hex encoding of
  SHA256(SHA256(the seven bytes of \<^verbatim>\<open>"alice"\<close> with its double quotes, then 32 zero
  bytes)): the node hash over the one leaf hash.  It has 64 characters, all of them
  lowercase hexadecimal digits.
\<close>

theorem S1_root:
  assumes "mm t = Some [Field ''name'' False Primitive]"
    and "heap w a = Some r"
    and "fqType r = t"
    and "props r ''name'' = Some (VString ''alice'')"
    and "salts r ''name'' = Some (replicate 32 0)"
  shows "fst (Merkle_root n mm (VResource a) w)
           = Inr (toHex (sha256 (sha256 ([34, 97, 108, 105, 99, 101, 34] @ replicate 32 0))))
         \<and> toHex (sha256 (sha256 ([34, 97, 108, 105, 99, 101, 34] @ replicate 32 0)))
           = toHex (H_node [H_leaf (json_quote ''alice'') (replicate 32 0)])
         \<and> length (toHex (sha256 (sha256 ([34, 97, 108, 105, 99, 101, 34] @ replicate 32 0)))) = 64
         \<and> set (toHex (sha256 (sha256 ([34, 97, 108, 105, 99, 101, 34] @ replicate 32 0))))
             \<subseteq> lowercase_hex"
proof -
  have "fst (Merkle_root n mm (VResource a) w)
          = Inr (toHex (sha256 (sha256 (utf8 (json_quote ''alice'') @ replicate 32 0))))"
    using assms
    by (simp add: Merkle_root_def js_defs record_defs hash_defs visitor_simps)
  then show ?thesis
    by (simp add: json_quote_alice H_node_def H_leaf_def length_toHex length_sha256 toHex_lowercase)
qed

theorem S1_root_witness:
  "fst (Merkle_root 0 S1_model (VResource 0) S1_world)
     = Inr ''d5a65d82b78b656d8303d29d93ba23621ab94a43c138fe18adf1044dbd4e2be2''"
proof -
  have "S1_model ''org.test.Thing'' = Some [Field ''name'' False Primitive]"
    by (simp add: S1_model_def)
  moreover have "heap S1_world 0 = Some \<lparr>fqType = ''org.test.Thing'',
      props = [''name'' \<mapsto> VString ''alice''], salts = [''name'' \<mapsto> replicate 32 0]\<rparr>"
    by (simp add: S1_world_def)
  ultimately have "fst (Merkle_root 0 S1_model (VResource 0) S1_world)
     = Inr (toHex (sha256 (sha256 ([34, 97, 108, 105, 99, 101, 34] @ replicate 32 0))))"
    using S1_root [of S1_model "''org.test.Thing''" S1_world 0 _ 0] by simp
  then show ?thesis
    by (simp only: S1_digest)
qed

section \<open>One leaf hash in the three engines\<close>

text \<open>
  Claim C10.  The three engines use one and the same leaf hash: for a primitive value
  \<open>v\<close> for which \<^verbatim>\<open>JSON.stringify\<close> gives the text \<open>canonical\<close> (a string, a boolean, a number,
  a date, null) and a salt \<open>s\<close>, the digest that the root engine computes for the field,
  the digest that the proof engine emits for it when it is not the disclosed leaf, and
  the digest that the verify engine recomputes at the matched leaf are all
  SHA256(UTF-8 bytes of the text, then the salt).
\<close>

theorem leaf_hash_shared:
  assumes "JSON_stringify v = Inr (Some canonical)"
  shows "root_visitField n mm False Primitive v (VBuffer s) w = (Inr (H_leaf canonical s), w)
       \<and> (path \<noteq> cur \<longrightarrow>
            proof_visitField n mm False Primitive v (VBuffer s) path cur w
              = (Inr (Digest (H_leaf canonical s)), w))
       \<and> verify_visitField n mm False Primitive vpath vpath v (VBuffer s) hashes w
              = (Inr (Some (H_leaf canonical s), hashes), w)"
  using assms
  by (simp add: visitor_simps hash_defs js_defs H_leaf_def pathEquals_iff)

theorem leaf_hash_shared_witness:
  "JSON_stringify (VBoolean True) = Inr (Some ''true'')
   \<and> root_visitField 0 S2_model False Primitive (VBoolean True) (VBuffer S2_salt_b) S2_world
        = (Inr (H_leaf ''true'' S2_salt_b), S2_world)
   \<and> proof_visitField 0 S2_model False Primitive (VBoolean True) (VBuffer S2_salt_b) [''a''] [''b''] S2_world
        = (Inr (Digest (H_leaf ''true'' S2_salt_b)), S2_world)
   \<and> verify_visitField 0 S2_model False Primitive [''b''] [''b''] (VBoolean True) (VBuffer S2_salt_b) [] S2_world
        = (Inr (Some (H_leaf ''true'' S2_salt_b), []), S2_world)"
  using leaf_hash_shared [of "VBoolean True" "''true''" 0 S2_model S2_salt_b S2_world "[''a'']" "[''b'']" "[''b'']" "[]"]
  by simp

text \<open>
  The leaf hash of a number is the hash of the text that \<^verbatim>\<open>JSON.stringify\<close> gives: for the
  number \<^verbatim>\<open>1e21\<close>, written \<^verbatim>\<open>1e+21\<close>, and a salt of 32 zero bytes, each of the three engines
  computes the digest \<^verbatim>\<open>48c90c4c...\<close> of those five characters and the salt.
\<close>

lemma number_text: "utf8 ''1e+21'' = [49, 101, 43, 50, 49]"
  by (simp add: utf8_def utf8_char_def)

lemma number_digest:
  "toHex (sha256 ([49, 101, 43, 50, 49] @ replicate 32 0))
     = ''48c90c4ccce58bf499dff6b6a8abdd443697a7c308b6fdda7ea7c22296069e75''"
  by code_simp

lemma number_leaf_hash:
  "\<exists>d. root_visitField n mm False Primitive (VNumber ''1e+21'') (VBuffer (replicate 32 0)) w
          = (Inr d, w)
       \<and> proof_visitField n mm False Primitive (VNumber ''1e+21'') (VBuffer (replicate 32 0))
            [''a''] [''b''] w
          = (Inr (Digest d), w)
       \<and> verify_visitField n mm False Primitive [''b''] [''b''] (VNumber ''1e+21'')
            (VBuffer (replicate 32 0)) hashes w
          = (Inr (Some d, hashes), w)
       \<and> toHex d = ''48c90c4ccce58bf499dff6b6a8abdd443697a7c308b6fdda7ea7c22296069e75''"
proof -
  let ?d = "sha256 ([49, 101, 43, 50, 49] @ replicate 32 0)"
  have "root_visitField n mm False Primitive (VNumber ''1e+21'') (VBuffer (replicate 32 0)) w
          = (Inr ?d, w)"
    by (simp add: visitor_simps hash_defs js_defs number_text)
  moreover have "proof_visitField n mm False Primitive (VNumber ''1e+21'') (VBuffer (replicate 32 0))
            [''a''] [''b''] w
          = (Inr (Digest ?d), w)"
    by (simp add: visitor_simps hash_defs js_defs number_text pathEquals_iff)
  moreover have "verify_visitField n mm False Primitive [''b''] [''b''] (VNumber ''1e+21'')
            (VBuffer (replicate 32 0)) hashes w
          = (Inr (Some ?d, hashes), w)"
    by (simp add: visitor_simps hash_defs js_defs number_text pathEquals_iff)
  ultimately show ?thesis
    using number_digest by blast
qed

section \<open>Array fields\<close>

text \<open>
  Claim C8 as stated fails: for the class with the array-typed property \<^verbatim>\<open>tags\<close>, salt,
  root and proof all raise \<^verbatim>\<open>Error('Not implemented for Array fields')\<close>, and the property
  name occurs nowhere in that error.
\<close>

theorem array_error_without_property_name:
  "fst (Merkle_salt 0 S6_model (VResource 0) S6_world) = Inl (Error ''Not implemented for Array fields'')
   \<and> fst (Merkle_root 0 S6_model (VResource 0) S6_world) = Inl (Error ''Not implemented for Array fields'')
   \<and> fst (Merkle_proof 0 S6_model (VResource 0) [''tags''] S6_world) = Inl (Error ''Not implemented for Array fields'')
   \<and> \<not> occurs_in ''tags'' ''Not implemented for Array fields''"
  by (simp add: S6_model_def S6_world_def api_defs js_defs record_defs visitor_simps)

text \<open>
  Claim C8, amended.  For a class whose first property is an array-typed field, whatever
  its name and element type, each of salt, root and proof (for any path) raises the
  error \<^verbatim>\<open>Not implemented for Array fields\<close>; the error is the same for every property
  name.
\<close>

theorem array_field_not_implemented:
  assumes "mm t = Some (Field name True ty # rest)"
    and "heap w a = Some r"
    and "fqType r = t"
  shows "fst (Merkle_salt n mm (VResource a) w) = Inl (Error ''Not implemented for Array fields'')
       \<and> fst (Merkle_root n mm (VResource a) w) = Inl (Error ''Not implemented for Array fields'')
       \<and> fst (Merkle_proof n mm (VResource a) path w) = Inl (Error ''Not implemented for Array fields'')"
  using assms
  by (simp add: api_defs js_defs record_defs visitor_simps split: option.splits)

theorem array_field_not_implemented_witness:
  "fst (Merkle_salt 0 S6_model (VResource 0) S6_world) = Inl (Error ''Not implemented for Array fields'')
   \<and> fst (Merkle_root 0 S6_model (VResource 0) S6_world) = Inl (Error ''Not implemented for Array fields'')
   \<and> fst (Merkle_proof 0 S6_model (VResource 0) [''tags''] S6_world) = Inl (Error ''Not implemented for Array fields'')"
proof -
  have "S6_model ''org.test.Tagged'' = Some (Field ''tags'' True Primitive # [])"
    by (simp add: S6_model_def)
  moreover have "heap S6_world 0 = Some \<lparr>fqType = ''org.test.Tagged'',
                       props = [''tags'' \<mapsto> VArray [VString ''red'', VString ''blue'']],
                       salts = Map.empty\<rparr>"
    by (simp add: S6_world_def)
  ultimately show ?thesis
    using array_field_not_implemented [of S6_model "''org.test.Tagged''" "''tags''" Primitive "[]" S6_world 0 _ 0 "[''tags'']"]
    by simp
qed

section \<open>Scenario S2: a proof verified under another path\<close>

lemma S2_salted: "fst (Merkle_salt 0 S2_model (VResource 0) S2_fresh) = Inr ()"
  by (simp add: S2_fresh_def S2_model_def api_defs js_defs record_defs visitor_simps)

lemma S2_root_eq: "fst (Merkle_root 0 S2_model (VResource 0) S2_world) = Inr S2_root"
  by (simp add: S2_world_eq S2_model_def S2_root_def api_defs js_defs record_defs hash_defs
        visitor_simps)

lemma S2_proof_a_eq: "fst (Merkle_proof 0 S2_model (VResource 0) [''a''] S2_world) = Inr S2_proof_a"
  by (simp add: S2_world_eq S2_model_def S2_proof_a_def api_defs js_defs record_defs hash_defs
        visitor_simps pathEquals_iff flatten.simps splitProof_def)

lemma S2_verify_a:
  "fst (Merkle_verify 0 S2_model ''org.test'' ''Pair'' [''a''] S2_root S2_proof_a S2_world) = Inr True"
  by (simp add: S2_model_def S2_proof_a_def S2_root_def api_defs js_defs record_defs hash_defs
        visitor_simps pathEquals_iff fromHex_toHex)

text \<open>
  Claim C2 fails on the code.  The record of S2, salted by the salt engine, has the root
  \<open>S2_root\<close>, and the proof engine returns \<open>S2_proof_a\<close> for the path \<^verbatim>\<open>["a"]\<close>.  That proof
  verifies against the root under the path \<^verbatim>\<open>["a"]\<close>, and it verifies just as well under
  the path \<^verbatim>\<open>["b"]\<close> of the sibling leaf: the verify visitor puts the recomputed leaf
  digest between the proof's \<^verbatim>\<open>before\<close> and \<^verbatim>\<open>after\<close> digests wherever in the class the
  path matched.
\<close>

theorem path_confusion_accepted:
  "fst (Merkle_salt 0 S2_model (VResource 0) S2_fresh) = Inr ()
   \<and> fst (Merkle_root 0 S2_model (VResource 0) S2_world) = Inr S2_root
   \<and> fst (Merkle_proof 0 S2_model (VResource 0) [''a''] S2_world) = Inr S2_proof_a
   \<and> fst (Merkle_verify 0 S2_model ''org.test'' ''Pair'' [''a''] S2_root S2_proof_a S2_world) = Inr True
   \<and> fst (Merkle_verify 0 S2_model ''org.test'' ''Pair'' [''b''] S2_root S2_proof_a S2_world) = Inr True"
proof -
  have "fst (Merkle_verify 0 S2_model ''org.test'' ''Pair'' [''b''] S2_root S2_proof_a S2_world) = Inr True"
    by (simp add: S2_model_def S2_proof_a_def S2_root_def api_defs js_defs record_defs hash_defs
        visitor_simps pathEquals_iff fromHex_toHex)
  with S2_salted S2_root_eq S2_proof_a_eq S2_verify_a show ?thesis by simp
qed

section \<open>A proof beside a nested record\<close>

lemma nested_world_eq:
  "nested_world =
     \<lparr>heap = [0 \<mapsto> \<lparr>fqType = ''org.test.Outer'',
                       props = [''a'' \<mapsto> VString ''x'', ''inner'' \<mapsto> VResource 1],
                       salts = [''a'' \<mapsto> nested_salt_a]\<rparr>,
              1 \<mapsto> \<lparr>fqType = ''org.test.Inner'',
                       props = [''k'' \<mapsto> VString ''v''],
                       salts = [''k'' \<mapsto> nested_salt_k]\<rparr>],
      entropy = (\<lambda>i. word_of_nat (i + 64))\<rparr>"
  by (simp add: nested_world_def nested_fresh_def nested_model_def Merkle_salt_def js_defs record_defs
      visitor_simps nested_salt_a_def nested_salt_k_def add.commute add.left_commute fun_upd_twist)

text \<open>
  Claim C1 fails on the code.  The record \<^verbatim>\<open>{a: "x", inner: {k: "v"}}\<close> is salted by the
  salt engine and has a root, and \<^verbatim>\<open>["a"]\<close> addresses a primitive leaf of it.  The proof
  visitor returns the array of results of the nested class as it is, where the root
  visitor hashes it; \<^verbatim>\<open>splitProof\<close> then takes that array, the last entry that is not a
  buffer, for the child in place of the disclosure, and \<^verbatim>\<open>Merkle.proof\<close> ends in a
  \<^verbatim>\<open>TypeError\<close>.  There is no proof to verify.
\<close>

theorem proof_fails_beside_nested_record:
  "fst (Merkle_salt 1 nested_model (VResource 0) nested_fresh) = Inr ()
   \<and> fst (Merkle_root 1 nested_model (VResource 0) nested_world)
       = Inr (toHex (sha256 (sha256 (utf8 (json_quote ''x'') @ nested_salt_a)
                             @ sha256 (sha256 (utf8 (json_quote ''v'') @ nested_salt_k)))))
   \<and> fst (Merkle_proof 1 nested_model (VResource 0) [''a''] nested_world)
       = Inl (TypeError ''Cannot read properties of null (reading $value)'')"
  by (simp add: nested_world_eq nested_fresh_def nested_model_def api_defs js_defs record_defs hash_defs
        visitor_simps pathEquals_iff flatten.simps splitProof_def)

section \<open>The length of the proof's hashes\<close>

lemma verify_none_keeps:
  "verify_visitClassDeclaration n mm cd path cur v salt hs w = (Inr (None, hs'), w') \<Longrightarrow> hs' = hs"
  "verify_visitField n mm isArray ty path cur v salt hs w = (Inr (None, hs'), w') \<Longrightarrow> hs' = hs"
proof (induction n mm cd path cur v salt hs and n mm isArray ty path cur v salt hs
       arbitrary: hs' w w' and hs' w w'
       rule: verify_visitClassDeclaration_verify_visitField.induct)
  case (1 n mm path cur v salt hashes)
  then show ?case by (simp add: js_defs)
next
  case (2 n mm property properties path cur v salt hashes)
  show ?case
  proof (cases property)
    case (Field name isArray ty)
    obtain res w1 where f: "verify_visitField n mm isArray ty path (cur @ [name]) v salt hashes w = (res, w1)"
      by (cases "verify_visitField n mm isArray ty path (cur @ [name]) v salt hashes w")
    show ?thesis
    proof (cases res)
      case (Inl e)
      with 2(3) Field f show ?thesis by (simp add: js_defs)
    next
      case (Inr x)
      obtain result hs1 where x: "x = (result, hs1)" by (cases x)
      show ?thesis
      proof (cases result)
        case None
        with 2(3) Field f Inr x
        have "verify_visitClassDeclaration n mm properties path cur v salt hs1 w1 = (Inr (None, hs'), w')"
          by (simp add: js_defs)
        from 2(2) [OF None this] have "hs' = hs1" .
        moreover from 2(1) [OF Field] f Inr x None have "hs1 = hashes" by simp
        ultimately show ?thesis by simp
      next
        case (Some r)
        with 2(3) Field f Inr x have "verify_combine r hs1 w1 = (Inr (None, hs'), w')"
          by (simp add: js_defs)
        then show ?thesis
          by (auto simp: verify_combine_def js_defs split: list.splits)
      qed
    qed
  next
    case (RelationshipDeclaration name)
    with 2(3) show ?thesis by (simp add: js_defs)
  qed
next
  case (3 n mm isArray ty path cur v salt hashes)
  show ?case
  proof (cases ty)
    case Primitive
    with 3(2) show ?thesis
      by (auto simp: verify_visitField.simps js_defs verify_primitive_def
            split: if_splits prod.splits sum.splits)
  next
    case Enum
    with 3(2) show ?thesis
      by (auto simp: verify_visitField.simps js_defs split: if_splits)
  next
    case (Class c)
    show ?thesis
    proof (cases n)
      case 0
      with 3(2) Class show ?thesis
        by (auto simp: verify_visitField.simps js_defs split: if_splits)
    next
      case (Suc m)
      from 3(2) Class Suc have na: "\<not> isArray"
        by (auto simp: verify_visitField.simps js_defs split: if_splits)
      with 3(2) Class Suc obtain cd where
        "verify_visitClassDeclaration m mm cd path cur v salt hashes w = (Inr (None, hs'), w')"
        by (auto simp: verify_visitField.simps js_defs getType_def split: option.splits)
      from 3(1) [OF na Class Suc this] show ?thesis .
    qed
  qed
qed

lemma verify_consumes:
  "verify_visitClassDeclaration n mm cd path cur v salt hs w = (Inr (Some d, hs'), w')
     \<Longrightarrow> length hs = length hs' + (length path - length cur) \<and> length cur < length path"
  "verify_visitField n mm isArray ty path cur v salt hs w = (Inr (Some d, hs'), w')
     \<Longrightarrow> length hs = length hs' + (length path - length cur) \<and> length cur \<le> length path"
proof (induction n mm cd path cur v salt hs and n mm isArray ty path cur v salt hs
       arbitrary: d hs' w w' and d hs' w w'
       rule: verify_visitClassDeclaration_verify_visitField.induct)
  case (1 n mm path cur v salt hashes)
  then show ?case by (simp add: js_defs)
next
  case (2 n mm property properties path cur v salt hashes)
  show ?case
  proof (cases property)
    case (Field name isArray ty)
    obtain res w1 where f: "verify_visitField n mm isArray ty path (cur @ [name]) v salt hashes w = (res, w1)"
      by (cases "verify_visitField n mm isArray ty path (cur @ [name]) v salt hashes w")
    show ?thesis
    proof (cases res)
      case (Inl e)
      with 2(3) Field f show ?thesis by (simp add: js_defs)
    next
      case (Inr x)
      obtain result hs1 where x: "x = (result, hs1)" by (cases x)
      show ?thesis
      proof (cases result)
        case None
        with 2(3) Field f Inr x
        have "verify_visitClassDeclaration n mm properties path cur v salt hs1 w1 = (Inr (Some d, hs'), w')"
          by (simp add: js_defs)
        from 2(2) [OF None this]
        have "length hs1 = length hs' + (length path - length cur) \<and> length cur < length path" .
        moreover have "hs1 = hashes"
          using verify_none_keeps(2) f Inr x None by blast
        ultimately show ?thesis by simp
      next
        case (Some r)
        with 2(3) Field f Inr x have c: "verify_combine r hs1 w1 = (Inr (Some d, hs'), w')"
          by (simp add: js_defs)
        then obtain e where hs1: "hs1 = e # hs'"
          by (auto simp: verify_combine_def js_defs split: list.splits)
        from 2(1) [OF Field] f Inr x Some
        have "length hashes = length hs1 + (length path - length (cur @ [name]))
              \<and> length (cur @ [name]) \<le> length path"
          by simp
        with hs1 show ?thesis by auto
      qed
    qed
  next
    case (RelationshipDeclaration name)
    with 2(3) show ?thesis by (simp add: js_defs)
  qed
next
  case (3 n mm isArray ty path cur v salt hashes)
  show ?case
  proof (cases ty)
    case Primitive
    with 3(2) show ?thesis
      by (auto simp: verify_visitField.simps js_defs verify_primitive_def pathEquals_iff
            split: if_splits prod.splits sum.splits)
  next
    case Enum
    with 3(2) show ?thesis
      by (auto simp: verify_visitField.simps js_defs split: if_splits)
  next
    case (Class c)
    show ?thesis
    proof (cases n)
      case 0
      with 3(2) Class show ?thesis
        by (auto simp: verify_visitField.simps js_defs split: if_splits)
    next
      case (Suc m)
      from 3(2) Class Suc have na: "\<not> isArray"
        by (auto simp: verify_visitField.simps js_defs split: if_splits)
      with 3(2) Class Suc obtain cd where
        "verify_visitClassDeclaration m mm cd path cur v salt hashes w = (Inr (Some d, hs'), w')"
        by (auto simp: verify_visitField.simps js_defs getType_def split: option.splits)
      from 3(1) [OF na Class Suc this] show ?thesis by simp
    qed
  qed
qed


lemma verify_surplus:
  "verify_visitClassDeclaration n mm cd path cur v salt hs w = (Inr (r, hs'), w')
     \<Longrightarrow> verify_visitClassDeclaration n mm cd path cur v salt (hs @ extra) w = (Inr (r, hs' @ extra), w')"
  "verify_visitField n mm isArray ty path cur v salt hs w = (Inr (r, hs'), w')
     \<Longrightarrow> verify_visitField n mm isArray ty path cur v salt (hs @ extra) w = (Inr (r, hs' @ extra), w')"
proof (induction n mm cd path cur v salt hs and n mm isArray ty path cur v salt hs
       arbitrary: r hs' w w' and r hs' w w'
       rule: verify_visitClassDeclaration_verify_visitField.induct)
  case (1 n mm path cur v salt hashes)
  then show ?case by (auto simp: js_defs)
next
  case (2 n mm property properties path cur v salt hashes)
  show ?case
  proof (cases property)
    case (Field name isArray ty)
    obtain res w1 where f: "verify_visitField n mm isArray ty path (cur @ [name]) v salt hashes w = (res, w1)"
      by (cases "verify_visitField n mm isArray ty path (cur @ [name]) v salt hashes w")
    show ?thesis
    proof (cases res)
      case (Inl e)
      with 2(3) Field f show ?thesis by (simp add: js_defs)
    next
      case (Inr x)
      obtain result hs1 where x: "x = (result, hs1)" by (cases x)
      from 2(1) [OF Field] f Inr x
      have f': "verify_visitField n mm isArray ty path (cur @ [name]) v salt (hashes @ extra) w
                  = (Inr (result, hs1 @ extra), w1)"
        by simp
      show ?thesis
      proof (cases result)
        case None
        with 2(3) Field f Inr x
        have "verify_visitClassDeclaration n mm properties path cur v salt hs1 w1 = (Inr (r, hs'), w')"
          by (simp add: js_defs)
        from 2(2) [OF None this] f' None Field show ?thesis
          by (simp add: js_defs)
      next
        case (Some d)
        with 2(3) Field f Inr x have "verify_combine d hs1 w1 = (Inr (r, hs'), w')"
          by (simp add: js_defs)
        then have "verify_combine d (hs1 @ extra) w1 = (Inr (r, hs' @ extra), w')"
          by (auto simp: verify_combine_def js_defs split: list.splits)
        with f' Some Field show ?thesis
          by (simp add: js_defs)
      qed
    qed
  next
    case (RelationshipDeclaration name)
    with 2(3) show ?thesis by (simp add: js_defs)
  qed
next
  case (3 n mm isArray ty path cur v salt hashes)
  show ?case
  proof (cases ty)
    case Primitive
    with 3(2) show ?thesis
      by (auto simp: verify_visitField.simps js_defs verify_primitive_def
            split: if_splits prod.splits sum.splits)
  next
    case Enum
    with 3(2) show ?thesis
      by (auto simp: verify_visitField.simps js_defs split: if_splits)
  next
    case (Class c)
    show ?thesis
    proof (cases n)
      case 0
      with 3(2) Class show ?thesis
        by (auto simp: verify_visitField.simps js_defs split: if_splits)
    next
      case (Suc m)
      from 3(2) Class Suc have na: "\<not> isArray"
        by (auto simp: verify_visitField.simps js_defs split: if_splits)
      with 3(2) Class Suc obtain cd where cd: "mm c = Some cd" and
        "verify_visitClassDeclaration m mm cd path cur v salt hashes w = (Inr (r, hs'), w')"
        by (auto simp: verify_visitField.simps js_defs getType_def split: option.splits)
      from 3(1) [OF na Class Suc this(2)] cd na Class Suc show ?thesis
        by (simp add: verify_visitField.simps js_defs getType_def)
    qed
  qed
qed

lemma S1_verify:
  "fst (Merkle_verify 0 S1_model ''org.test'' ''Thing'' [''name''] S1_root_value S1_proof S1_world)
     = Inr True"
  by (simp add: S1_model_def S1_proof_def S1_root_value_def api_defs js_defs record_defs hash_defs
        visitor_simps pathEquals_iff fromHex_toHex)

text \<open>
  Claim C3 fails on the code, both ways.  \<^verbatim>\<open>Merkle.verify\<close> is documented to return a
  boolean: true if the proof is valid, false otherwise.  In scenario S1 the path has one
  class node.  With no entry in \<^verbatim>\<open>hashes\<close>, verify returns nothing: it raises a \<^verbatim>\<open>TypeError\<close>,
  for \<^verbatim>\<open>visitClassDeclaration\<close> destructures the \<^verbatim>\<open>undefined\<close> that \<^verbatim>\<open>shift()\<close> returns on the
  empty array.  With a second, surplus entry, verify returns true, not false.
\<close>

theorem verify_shortfall_raises_surplus_accepted:
  "fst (Merkle_verify 0 S1_model ''org.test'' ''Thing'' [''name''] S1_root_value
          (S1_proof\<lparr>p_hashes := []\<rparr>) S1_world)
     = Inl (TypeError ''undefined is not iterable'')
   \<and> fst (Merkle_verify 0 S1_model ''org.test'' ''Thing'' [''name''] S1_root_value
          (S1_proof\<lparr>p_hashes := [([], []), ([''ff''], [])]\<rparr>) S1_world)
     = Inr True"
  by (simp add: S1_model_def S1_proof_def S1_root_value_def api_defs js_defs record_defs hash_defs
        visitor_simps pathEquals_iff fromHex_toHex)

text \<open>
  Neither failure is particular to the scenario: the verify visitor never looks at the
  length of \<^verbatim>\<open>hashes\<close>.  For every verify call, when \<^verbatim>\<open>hashes\<close> has fewer entries than the
  path has class nodes (the length of the path), verify raises some exception and returns
  no boolean; and entries beyond those consumed are ignored, so that when verify returns
  a boolean for a proof, it returns the same boolean for that proof with surplus entries
  appended to its \<^verbatim>\<open>hashes\<close>.
\<close>

theorem verify_hashes_shortfall_surplus:
  "(length (p_hashes proof) < length path \<longrightarrow>
      (\<exists>e. fst (Merkle_verify n mm ns type path root proof w) = Inl e))
   \<and> (fst (Merkle_verify n mm ns type path root proof w) = Inr b \<longrightarrow>
      fst (Merkle_verify n mm ns type path root (proof\<lparr>p_hashes := p_hashes proof @ extra\<rparr>) w) = Inr b)"
proof (intro conjI impI)
  let ?parse = "map (\<lambda>(bef, aft). (map fromHex bef, map fromHex aft))"
  assume short: "length (p_hashes proof) < length path"
  show "\<exists>e. fst (Merkle_verify n mm ns type path root proof w) = Inl e"
  proof (cases "mm (ns @ ''.'' @ type)")
    case None
    then show ?thesis by (simp add: Merkle_verify_def js_defs getType_def)
  next
    case (Some cd)
    obtain res w1 where v: "verify_visitClassDeclaration n mm cd path [] (p_value proof)
        (VBuffer (fromHex (p_salt proof))) (?parse (p_hashes proof)) w = (res, w1)"
      by (cases "verify_visitClassDeclaration n mm cd path [] (p_value proof)
        (VBuffer (fromHex (p_salt proof))) (?parse (p_hashes proof)) w")
    show ?thesis
    proof (cases res)
      case (Inl e)
      with Some v show ?thesis by (simp add: Merkle_verify_def js_defs getType_def)
    next
      case (Inr x)
      obtain actualRoot hs' where x: "x = (actualRoot, hs')" by (cases x)
      show ?thesis
      proof (cases actualRoot)
        case None
        with Some v Inr x show ?thesis by (simp add: Merkle_verify_def js_defs getType_def)
      next
        case (Some d)
        with v Inr x verify_consumes(1) [of n mm cd path "[]" _ _ "?parse (p_hashes proof)" w d hs' w1]
        have "length (p_hashes proof) = length hs' + length path" by simp
        with short show ?thesis by simp
      qed
    qed
  qed
next
  let ?parse = "map (\<lambda>(bef, aft). (map fromHex bef, map fromHex aft))"
  assume ok: "fst (Merkle_verify n mm ns type path root proof w) = Inr b"
  then obtain cd where cd: "mm (ns @ ''.'' @ type) = Some cd"
    by (cases "mm (ns @ ''.'' @ type)") (auto simp: Merkle_verify_def js_defs getType_def)
  obtain res w1 where v: "verify_visitClassDeclaration n mm cd path [] (p_value proof)
      (VBuffer (fromHex (p_salt proof))) (?parse (p_hashes proof)) w = (res, w1)"
    by (cases "verify_visitClassDeclaration n mm cd path [] (p_value proof)
      (VBuffer (fromHex (p_salt proof))) (?parse (p_hashes proof)) w")
  from ok cd v obtain d hs' where res: "res = Inr (Some d, hs')" and b: "b = (toHex d = root)"
    by (auto simp: Merkle_verify_def js_defs getType_def split: sum.splits option.splits prod.splits)
  from verify_surplus(1) [OF v [unfolded res], of "?parse extra"]
  have "verify_visitClassDeclaration n mm cd path [] (p_value proof)
      (VBuffer (fromHex (p_salt proof))) (?parse (p_hashes proof @ extra)) w
        = (Inr (Some d, hs' @ ?parse extra), w1)"
    by simp
  with cd b show "fst (Merkle_verify n mm ns type path root (proof\<lparr>p_hashes := p_hashes proof @ extra\<rparr>) w) = Inr b"
    by (simp add: Merkle_verify_def js_defs getType_def)
qed

theorem verify_hashes_shortfall_surplus_witness:
  "length (p_hashes (S1_proof\<lparr>p_hashes := []\<rparr>)) < length [''name'']
   \<and> (\<exists>e. fst (Merkle_verify 0 S1_model ''org.test'' ''Thing'' [''name''] S1_root_value
                (S1_proof\<lparr>p_hashes := []\<rparr>) S1_world) = Inl e)
   \<and> fst (Merkle_verify 0 S1_model ''org.test'' ''Thing'' [''name''] S1_root_value S1_proof S1_world)
       = Inr True
   \<and> fst (Merkle_verify 0 S1_model ''org.test'' ''Thing'' [''name''] S1_root_value
            (S1_proof\<lparr>p_hashes := p_hashes S1_proof @ [([''ff''], [])]\<rparr>) S1_world)
       = Inr True"
proof -
  have short: "length (p_hashes (S1_proof\<lparr>p_hashes := []\<rparr>)) < length [''name'']"
    by simp
  have raises: "\<exists>e. fst (Merkle_verify 0 S1_model ''org.test'' ''Thing'' [''name''] S1_root_value
                (S1_proof\<lparr>p_hashes := []\<rparr>) S1_world) = Inl e"
    using verify_hashes_shortfall_surplus
            [of "S1_proof\<lparr>p_hashes := []\<rparr>" "[''name'']" 0 S1_model "''org.test''" "''Thing''"
                S1_root_value S1_world, THEN conjunct1, rule_format, OF short] .
  have surplus: "fst (Merkle_verify 0 S1_model ''org.test'' ''Thing'' [''name''] S1_root_value
            (S1_proof\<lparr>p_hashes := p_hashes S1_proof @ [([''ff''], [])]\<rparr>) S1_world) = Inr True"
    using verify_hashes_shortfall_surplus
            [of S1_proof "[''name'']" 0 S1_model "''org.test''" "''Thing''" S1_root_value S1_world
                True "[([''ff''], [])]", THEN conjunct2, rule_format, OF S1_verify] .
  from short raises S1_verify surplus show ?thesis
    by (intro conjI)
qed

section \<open>A proof for a path that is no leaf\<close>

lemma flatten_discloses:
  "flatten p hashes = Inr pf \<Longrightarrow> list_ex discloses p"
proof (induction p hashes rule: flatten.induct)
  case (1 p hashes)
  obtain bef child aft where sp: "splitProof p = (bef, child, aft)"
    by (cases "splitProof p")
  show ?case
  proof (cases child)
    case None
    with 1(2) sp show ?thesis by (simp add: flatten.simps)
  next
    case (Some c)
    with sp have mem: "c \<in> set p" by (simp add: splitProof_child)
    show ?thesis
    proof (cases c)
      case (Digest d)
      with 1(2) sp Some show ?thesis by (simp add: flatten.simps)
    next
      case (Disclosure v salt)
      with mem have "c \<in> set p \<and> discloses c" by simp
      then show ?thesis unfolding list_ex_iff by blast
    next
      case (Results q)
      with 1(2) sp Some have "flatten q ((map toHex bef, map toHex aft) # hashes) = Inr pf"
        by (simp add: flatten.simps)
      from 1(1) [OF sp [symmetric] refl Some Results this] have "list_ex discloses q" .
      with mem Results have "c \<in> set p \<and> discloses c" by simp
      then show ?thesis unfolding list_ex_iff by blast
    qed
  qed
qed

lemma flatten_without_disclosure:
  "\<not> list_ex discloses p
     \<Longrightarrow> flatten p hashes = Inl (TypeError ''Cannot read properties of null (reading $value)'')"
proof (induction p hashes rule: flatten.induct)
  case (1 p hashes)
  obtain bef child aft where sp: "splitProof p = (bef, child, aft)"
    by (cases "splitProof p")
  show ?case
  proof (cases child)
    case None
    with sp show ?thesis by (simp add: flatten.simps)
  next
    case (Some c)
    with sp have mem: "c \<in> set p" by (simp add: splitProof_child)
    show ?thesis
    proof (cases c)
      case (Digest d)
      with sp Some show ?thesis by (simp add: flatten.simps)
    next
      case (Disclosure v salt)
      with mem 1(2) show ?thesis by (auto simp: list_ex_iff)
    next
      case (Results q)
      from mem Results 1(2) have "\<not> list_ex discloses q" by (auto simp: list_ex_iff)
      from 1(1) [OF sp [symmetric] refl Some Results this] sp Some Results show ?thesis
        by (simp add: flatten.simps)
    qed
  qed
qed


lemma getProperty_eq:
  "getProperty a name w = (Inr (case heap w a of None \<Rightarrow> VUndefined
      | Some r \<Rightarrow> (case props r name of None \<Rightarrow> VUndefined | Some v \<Rightarrow> v)), w)"
  by (simp add: getProperty_def split: option.splits)

lemma getSalt_eq:
  "getSalt a name w = (Inr (case heap w a of None \<Rightarrow> VUndefined
      | Some r \<Rightarrow> (case salts r name of None \<Rightarrow> VUndefined | Some s \<Rightarrow> VBuffer s)), w)"
  by (simp add: getSalt_def split: option.splits)

lemma readonlyD: "readonly m \<Longrightarrow> m w = (r, w') \<Longrightarrow> w' = w"
  by (metis readonly_def snd_conv)

lemma proof_walk_discloses:
  "proof_visitClassDeclaration n mm cd typed path cur w = (Inr raw, w') \<Longrightarrow> list_ex discloses raw
     \<Longrightarrow> (\<And>a r. typed = VResource a \<Longrightarrow> heap w a = Some r \<Longrightarrow> mm (fqType r) = Some cd)
     \<Longrightarrow> \<exists>suffix. path = cur @ suffix \<and> leaf_at mm (heap w) typed suffix"
  "proof_properties n mm ps a path cur w = (Inr raw, w') \<Longrightarrow> list_ex discloses raw
     \<Longrightarrow> heap w a = Some r \<Longrightarrow> mm (fqType r) = Some cd' \<Longrightarrow> set ps \<subseteq> set cd'
     \<Longrightarrow> \<exists>suffix. path = cur @ suffix \<and> leaf_at mm (heap w) (VResource a) suffix"
  "proof_visitField n mm isArray ty v salt path cur w = (Inr x, w') \<Longrightarrow> discloses x
     \<Longrightarrow> \<not> isArray \<and> ((ty = Primitive \<and> path = cur)
          \<or> ((\<exists>c. ty = Class c) \<and> (\<exists>suffix. path = cur @ suffix \<and> leaf_at mm (heap w) v suffix)))"
proof (induction n mm cd typed path cur and n mm ps a path cur and n mm isArray ty v salt path cur
       arbitrary: raw w w' and raw w w' r cd' and x w w'
       rule: proof_visitClassDeclaration_proof_properties_proof_visitField.induct)
  case (1 n mm classDeclaration typed path cur)
  from 1(2) obtain a r where typed: "typed = VResource a" and h: "heap w a = Some r"
    and pp: "proof_properties n mm classDeclaration a path cur w = (Inr raw, w')"
    by (auto simp: proof_visitClassDeclaration.simps js_defs isResource_def
          split: jsvalue.splits if_splits)
  from 1(4) [OF typed h] have cd: "mm (fqType r) = Some classDeclaration" .
  from 1(1) [OF typed _ pp 1(3) h cd] typed show ?case by simp
next
  case (2 n mm a path cur)
  then show ?case by (simp add: js_defs)
next
  case (3 n mm property properties a path cur)
  let ?v = "case props r (getName property) of None \<Rightarrow> VUndefined | Some v \<Rightarrow> v"
  let ?s = "case salts r (getName property) of None \<Rightarrow> VUndefined | Some s \<Rightarrow> VBuffer s"
  show ?case
  proof (cases property)
    case (RelationshipDeclaration name)
    with 3(3) show ?thesis
      by (auto simp: js_defs getProperty_eq getSalt_eq proof_visitRelationshipDeclaration_def
            split: jsvalue.splits)
  next
    case (Field name isArray ty)
    from Field have nm: "getName property = name" by simp
    obtain res w1 where f: "proof_visitField n mm isArray ty ?v ?s path (cur @ [getName property]) w = (res, w1)"
      by (cases "proof_visitField n mm isArray ty ?v ?s path (cur @ [getName property]) w")
    have w1: "w1 = w" using readonlyD [OF readonly_proof_visitor(3) f] .
    from 3(3) Field f 3(5) obtain x where res: "res = Inr x"
      by (cases res) (auto simp: js_defs getProperty_eq getSalt_eq)
    from 3(3) Field f 3(5) res w1 obtain rest where
      rest: "proof_properties n mm properties a path cur w = (Inr rest, w')" and raw: "raw = x # rest"
      by (auto simp: js_defs getProperty_eq getSalt_eq split: prod.splits sum.splits)
    from 3(4) raw have "discloses x \<or> list_ex discloses rest" by simp
    then show ?thesis
    proof
      assume d: "discloses x"
      from 3(1) [OF Field f [unfolded res] d] nm
      have na: "\<not> isArray" and alt: "(ty = Primitive \<and> path = cur @ [name])
          \<or> ((\<exists>c. ty = Class c) \<and> (\<exists>suffix. path = (cur @ [name]) @ suffix \<and> leaf_at mm (heap w) ?v suffix))"
        by simp_all
      from 3(7) Field have mem: "Field name isArray ty \<in> set cd'" by simp
      from alt show ?thesis
      proof
        assume "ty = Primitive \<and> path = cur @ [name]"
        with mem na leaf_at.leaf [of "heap w" a r mm cd' name] 3(5) 3(6) show ?thesis by auto
      next
        assume "(\<exists>c. ty = Class c) \<and> (\<exists>suffix. path = (cur @ [name]) @ suffix \<and> leaf_at mm (heap w) ?v suffix)"
        then obtain c suffix where c: "ty = Class c" and p: "path = (cur @ [name]) @ suffix"
          and l: "leaf_at mm (heap w) ?v suffix" by blast
        from l nm obtain v where v: "props r name = Some v" and l': "leaf_at mm (heap w) v suffix"
          by (cases "props r name") (auto elim: leaf_at.cases)
        from leaf_at.nested [of "heap w" a r mm cd' name c v suffix] 3(5) 3(6) v l' mem na c
        have "leaf_at mm (heap w) (VResource a) (name # suffix)" by simp
        with p show ?thesis by auto
      qed
    next
      assume d: "list_ex discloses rest"
      from 3(7) have "set properties \<subseteq> set cd'" by simp
      from 3(2) [OF rest d 3(5) 3(6) this] show ?thesis .
    qed
  qed
next
  case (4 n mm isArray ty v salt path cur)
  from 4(2) have na: "\<not> isArray"
    by (auto simp: proof_visitField.simps js_defs split: if_splits)
  show ?case
  proof (cases ty)
    case Primitive
    with 4(2,3) na show ?thesis
      by (auto simp: proof_visitField.simps proof_primitive_def js_defs pathEquals_iff
            split: if_splits sum.splits)
  next
    case Enum
    with 4(2) na show ?thesis by (simp add: proof_visitField.simps js_defs)
  next
    case (Class c)
    show ?thesis
    proof (cases n)
      case 0
      with 4(2) na Class show ?thesis by (simp add: proof_visitField.simps js_defs)
    next
      case (Suc m)
      from 4(2) na Class Suc obtain t cd rs where
        t: "getFullyQualifiedType v w = (Inr t, w)" and cd: "mm t = Some cd"
        and walk: "proof_visitClassDeclaration m mm cd v path cur w = (Inr rs, w')" and x: "x = Results rs"
        by (auto simp: proof_visitField.simps js_defs getType_def
              split: prod.splits sum.splits option.splits
              dest: readonlyD [OF readonly_getFullyQualifiedType])
      from 4(3) x have d: "list_ex discloses rs" by simp
      have "\<exists>suffix. path = cur @ suffix \<and> leaf_at mm (heap w) v suffix"
      proof (rule 4(1) [OF na Class Suc walk d])
        fix a r assume "v = VResource a" "heap w a = Some r"
        with t cd show "mm (fqType r) = Some cd"
          by (simp add: getFullyQualifiedType_def)
      qed
      with na Class show ?thesis by simp
    qed
  qed
qed


lemma leaf_at_nonempty: "\<not> leaf_at mm h v []"
  by (auto elim: leaf_at.cases)

text \<open>
  Claim C5 as stated fails.  For the salted record of S1, the proof engine called with
  the empty path, or with the path \<^verbatim>\<open>["nom"]\<close> that names no property, raises the runtime's
  \<^verbatim>\<open>TypeError\<close> for reading \<^verbatim>\<open>$value\<close> of null.  It is no error of the path's own: the proof
  engine raises the very same \<^verbatim>\<open>TypeError\<close> for the path \<^verbatim>\<open>["a"]\<close> of the record with a
  nested record, and that path is a primitive leaf.
\<close>

theorem invalid_path_is_a_TypeError:
  "fst (Merkle_proof 0 S1_model (VResource 0) [] S1_world)
     = Inl (TypeError ''Cannot read properties of null (reading $value)'')
   \<and> fst (Merkle_proof 0 S1_model (VResource 0) [''nom''] S1_world)
     = Inl (TypeError ''Cannot read properties of null (reading $value)'')
   \<and> fst (Merkle_proof 1 nested_model (VResource 0) [''a''] nested_world)
     = Inl (TypeError ''Cannot read properties of null (reading $value)'')"
  by (simp add: S1_model_def S1_world_def nested_world_eq nested_model_def api_defs js_defs
        record_defs hash_defs visitor_simps pathEquals_iff flatten.simps splitProof_def)

text \<open>
  Claim C5, amended.  For every record, calling proof with an empty path, or with a path
  that does not resolve to a primitive leaf of the record, raises an error and returns no
  proof; when the walk of the record itself raises nothing (as for a record with
  populated salts and defined values), the error is the \<^verbatim>\<open>TypeError\<close> that the runtime
  raises for reading \<^verbatim>\<open>$value\<close> of the null child.
\<close>

theorem proof_invalid_path_raises:
  assumes "path = [] \<or> \<not> leaf_at mm (heap w) typed path"
  shows "(\<exists>e. fst (Merkle_proof n mm typed path w) = Inl e)
       \<and> (\<forall>t cd raw.
             fst (getFullyQualifiedType typed w) = Inr t \<and> mm t = Some cd
             \<and> fst (proof_visitClassDeclaration n mm cd typed path [] w) = Inr raw
             \<longrightarrow> fst (Merkle_proof n mm typed path w)
                   = Inl (TypeError ''Cannot read properties of null (reading $value)''))"
proof -
  from assms have nl: "\<not> leaf_at mm (heap w) typed path"
    using leaf_at_nonempty by auto
  have walk: "fst (Merkle_proof n mm typed path w)
                = Inl (TypeError ''Cannot read properties of null (reading $value)'')"
    if t: "fst (getFullyQualifiedType typed w) = Inr t" and cd: "mm t = Some cd"
      and raw: "fst (proof_visitClassDeclaration n mm cd typed path [] w) = Inr raw"
    for t cd raw
  proof -
    from t have t': "getFullyQualifiedType typed w = (Inr t, w)"
      by (metis readonlyD [OF readonly_getFullyQualifiedType] prod.collapse)
    from raw have raw': "proof_visitClassDeclaration n mm cd typed path [] w = (Inr raw, w)"
      by (metis readonlyD [OF readonly_proof_visitor(1)] prod.collapse)
    have "\<not> list_ex discloses raw"
    proof
      assume d: "list_ex discloses raw"
      have "\<exists>suffix. path = [] @ suffix \<and> leaf_at mm (heap w) typed suffix"
      proof (rule proof_walk_discloses(1) [OF raw' d])
        fix a r assume "typed = VResource a" "heap w a = Some r"
        with t' cd show "mm (fqType r) = Some cd"
          by (simp add: getFullyQualifiedType_def)
      qed
      with nl show False by simp
    qed
    then have "flatten raw [] = Inl (TypeError ''Cannot read properties of null (reading $value)'')"
      by (rule flatten_without_disclosure)
    with t' cd raw' show ?thesis
      by (simp add: Merkle_proof_def js_defs getType_def)
  qed
  have "\<exists>e. fst (Merkle_proof n mm typed path w) = Inl e"
  proof (cases "fst (getFullyQualifiedType typed w)")
    case (Inl e)
    then have "getFullyQualifiedType typed w = (Inl e, w)"
      by (metis readonlyD [OF readonly_getFullyQualifiedType] prod.collapse)
    then show ?thesis by (simp add: Merkle_proof_def js_defs)
  next
    case (Inr t)
    then have t': "getFullyQualifiedType typed w = (Inr t, w)"
      by (metis readonlyD [OF readonly_getFullyQualifiedType] prod.collapse)
    show ?thesis
    proof (cases "mm t")
      case None
      with t' show ?thesis by (simp add: Merkle_proof_def js_defs getType_def)
    next
      case (Some cd)
      show ?thesis
      proof (cases "fst (proof_visitClassDeclaration n mm cd typed path [] w)")
        case (Inl e)
        then have "proof_visitClassDeclaration n mm cd typed path [] w = (Inl e, w)"
          by (metis readonlyD [OF readonly_proof_visitor(1)] prod.collapse)
        with t' Some show ?thesis by (simp add: Merkle_proof_def js_defs getType_def)
      next
        case (Inr raw)
        from walk [OF \<open>fst (getFullyQualifiedType typed w) = Inr t\<close> Some Inr] show ?thesis by blast
      qed
    qed
  qed
  with walk show ?thesis by blast
qed

lemma S1_no_such_leaf: "\<not> leaf_at S1_model (heap S1_world) (VResource 0) [''nom'']"
  by (auto simp: S1_model_def S1_world_def elim!: leaf_at.cases split: if_splits)

theorem proof_invalid_path_raises_witness:
  "fst (Merkle_proof 0 S1_model (VResource 0) [] S1_world)
     = Inl (TypeError ''Cannot read properties of null (reading $value)'')
   \<and> \<not> leaf_at S1_model (heap S1_world) (VResource 0) [''nom'']
   \<and> fst (Merkle_proof 0 S1_model (VResource 0) [''nom''] S1_world)
     = Inl (TypeError ''Cannot read properties of null (reading $value)'')"
proof -
  have t: "fst (getFullyQualifiedType (VResource 0) S1_world) = Inr ''org.test.Thing''"
    by (simp add: getFullyQualifiedType_def S1_world_def)
  have cd: "S1_model ''org.test.Thing'' = Some [Field ''name'' False Primitive]"
    by (simp add: S1_model_def)
  have w0: "\<exists>raw. fst (proof_visitClassDeclaration 0 S1_model [Field ''name'' False Primitive]
                (VResource 0) [] [] S1_world) = Inr raw"
    by (simp add: S1_world_def js_defs record_defs hash_defs visitor_simps pathEquals_iff)
  have w1: "\<exists>raw. fst (proof_visitClassDeclaration 0 S1_model [Field ''name'' False Primitive]
                (VResource 0) [''nom''] [] S1_world) = Inr raw"
    by (simp add: S1_world_def js_defs record_defs hash_defs visitor_simps pathEquals_iff)
  have e: "([] :: string list) = [] \<or> \<not> leaf_at S1_model (heap S1_world) (VResource 0) []"
    by simp
  from proof_invalid_path_raises [OF e, of 0, THEN conjunct2] t cd w0
  have a: "fst (Merkle_proof 0 S1_model (VResource 0) [] S1_world)
     = Inl (TypeError ''Cannot read properties of null (reading $value)'')"
    by blast
  from proof_invalid_path_raises [OF disjI2 [OF S1_no_such_leaf], of 0, THEN conjunct2] t cd w1
  have b: "fst (Merkle_proof 0 S1_model (VResource 0) [''nom''] S1_world)
     = Inl (TypeError ''Cannot read properties of null (reading $value)'')"
    by blast
  from a S1_no_such_leaf b show ?thesis by (intro conjI)
qed

section \<open>The root of a record with a missing salt\<close>

lemma root_properties_each:
  "root_properties n mm ps a w = (Inr hs, w') \<Longrightarrow> Field name isArray ty \<in> set ps
     \<Longrightarrow> heap w a = Some r
     \<Longrightarrow> \<exists>d. root_visitField n mm isArray ty
               (case props r name of None \<Rightarrow> VUndefined | Some v \<Rightarrow> v)
               (case salts r name of None \<Rightarrow> VUndefined | Some s \<Rightarrow> VBuffer s) w = (Inr d, w)"
proof (induction ps arbitrary: hs)
  case Nil
  then show ?case by simp
next
  case (Cons p ps)
  let ?v = "case props r (getName p) of None \<Rightarrow> VUndefined | Some v \<Rightarrow> v"
  let ?s = "case salts r (getName p) of None \<Rightarrow> VUndefined | Some s \<Rightarrow> VBuffer s"
  show ?case
  proof (cases p)
    case (RelationshipDeclaration nm)
    with Cons.prems(1,3) show ?thesis
      by (auto simp: js_defs getProperty_eq getSalt_eq root_visitRelationshipDeclaration_def
            split: jsvalue.splits)
  next
    case (Field nm arr t)
    obtain res w1 where f: "root_visitField n mm arr t ?v ?s w = (res, w1)"
      by (cases "root_visitField n mm arr t ?v ?s w")
    have w1: "w1 = w" using readonlyD [OF readonly_root_visitor(3) f] .
    from Cons.prems(1,3) Field f obtain d where res: "res = Inr d"
      by (cases res) (auto simp: js_defs getProperty_eq getSalt_eq)
    from Cons.prems(1,3) Field f res w1 obtain rest where
      rest: "root_properties n mm ps a w = (Inr rest, w')"
      by (auto simp: js_defs getProperty_eq getSalt_eq split: prod.splits sum.splits)
    from Cons.prems(2) have "Field name isArray ty = p \<or> Field name isArray ty \<in> set ps" by auto
    then show ?thesis
    proof
      assume "Field name isArray ty = p"
      with Field f res w1 show ?thesis by auto
    next
      assume "Field name isArray ty \<in> set ps"
      from Cons.IH [OF rest this Cons.prems(3)] show ?thesis .
    qed
  qed
qed

lemma root_lacks_salt:
  "lacks_salt mm h v \<Longrightarrow> heap w = h
     \<Longrightarrow> (\<And>a r. v = VResource a \<Longrightarrow> heap w a = Some r \<Longrightarrow> mm (fqType r) = Some cd)
     \<Longrightarrow> fst (root_visitClassDeclaration n mm cd v w) \<noteq> Inr d"
proof (induction arbitrary: n cd d rule: lacks_salt.induct)
  case (here a r cd0 name)
  from here(1,5) have h: "heap w a = Some r" by simp
  from here(6) [OF refl h] here(2) have cd: "cd = cd0" by simp
  show ?case
  proof
    assume "fst (root_visitClassDeclaration n mm cd (VResource a) w) = Inr d"
    then obtain hs w' where "root_properties n mm cd0 a w = (Inr hs, w')"
      using h cd
      by (auto simp: root_visitClassDeclaration.simps js_defs isResource_def
            split: prod.splits sum.splits)
    from root_properties_each [OF this here(3) h] here(4) show False
      by (auto simp: root_visitField.simps hash_defs js_defs split: sum.splits option.splits)
  qed
next
  case (below a r cd0 name c v)
  from below(1,7) have h: "heap w a = Some r" by simp
  from below(8) [OF refl h] below(2) have cd: "cd = cd0" by simp
  show ?case
  proof
    assume "fst (root_visitClassDeclaration n mm cd (VResource a) w) = Inr d"
    then obtain hs w' where "root_properties n mm cd0 a w = (Inr hs, w')"
      using h cd
      by (auto simp: root_visitClassDeclaration.simps js_defs isResource_def
            split: prod.splits sum.splits)
    from root_properties_each [OF this below(3) h] below(4) obtain d' where
      f: "root_visitField n mm False (Class c) v
            (case salts r name of None \<Rightarrow> VUndefined | Some s \<Rightarrow> VBuffer s) w = (Inr d', w)"
      by auto
    then obtain m t cd' where n: "n = Suc m" and t: "getFullyQualifiedType v w = (Inr t, w)"
      and cd': "mm t = Some cd'"
      and walk: "root_visitClassDeclaration m mm cd' v w = (Inr d', w)"
      by (auto simp: root_visitField.simps js_defs getType_def
            split: nat.splits prod.splits sum.splits option.splits
            dest: readonlyD [OF readonly_getFullyQualifiedType])
    have "fst (root_visitClassDeclaration m mm cd' v w) \<noteq> Inr d'"
    proof (rule below(6) [OF below(7)])
      fix a' r' assume "v = VResource a'" "heap w a' = Some r'"
      with t cd' show "mm (fqType r') = Some cd'"
        by (simp add: getFullyQualifiedType_def)
    qed
    with walk show False by simp
  qed
qed

text \<open>
  Claim C4 as stated fails.  The root engine does abort on the S1 record without its
  salt, but with the \<^verbatim>\<open>TypeError\<close> that \<^verbatim>\<open>hash.update\<close> raises for an argument that is neither
  a string nor a buffer.  It is not an error of the salt's own: the root engine raises
  the very same \<^verbatim>\<open>TypeError\<close> for the record that has its salt and lacks its value.
\<close>

theorem missing_salt_is_a_TypeError:
  "fst (Merkle_root 0 S1_model (VResource 0) S1_unsalted)
     = Inl (TypeError ''The data argument must be of type string or an instance of Buffer'')
   \<and> fst (Merkle_root 0 S1_model (VResource 0) S1_no_value)
     = Inl (TypeError ''The data argument must be of type string or an instance of Buffer'')"
  by (simp add: S1_model_def S1_unsalted_def S1_no_value_def api_defs js_defs record_defs hash_defs
        visitor_simps)

text \<open>
  Claim C4, amended.  For every record containing a primitive leaf whose salt was never
  generated, the root engine aborts with an error and produces no digest; when that leaf
  is the first property of the record's class and its value has a canonical text (or is
  undefined), the error is the \<^verbatim>\<open>TypeError\<close> of \<^verbatim>\<open>hash.update\<close>.
\<close>

theorem root_missing_salt_raises:
  "(lacks_salt mm (heap w) typed \<longrightarrow> (\<exists>e. fst (Merkle_root n mm typed w) = Inl e))
   \<and> (heap w a = Some r \<and> mm (fqType r) = Some (Field name False Primitive # rest)
        \<and> salts r name = None
        \<and> (\<exists>t. JSON_stringify (case props r name of None \<Rightarrow> VUndefined | Some v \<Rightarrow> v) = Inr t)
      \<longrightarrow> fst (Merkle_root n mm (VResource a) w)
            = Inl (TypeError ''The data argument must be of type string or an instance of Buffer''))"
proof (intro conjI impI)
  assume l: "lacks_salt mm (heap w) typed"
  show "\<exists>e. fst (Merkle_root n mm typed w) = Inl e"
  proof (cases "fst (getFullyQualifiedType typed w)")
    case (Inl e)
    then have "getFullyQualifiedType typed w = (Inl e, w)"
      by (metis readonlyD [OF readonly_getFullyQualifiedType] prod.collapse)
    then show ?thesis by (simp add: Merkle_root_def js_defs)
  next
    case (Inr t)
    then have t': "getFullyQualifiedType typed w = (Inr t, w)"
      by (metis readonlyD [OF readonly_getFullyQualifiedType] prod.collapse)
    show ?thesis
    proof (cases "mm t")
      case None
      with t' show ?thesis by (simp add: Merkle_root_def js_defs getType_def)
    next
      case (Some cd)
      have "fst (root_visitClassDeclaration n mm cd typed w) \<noteq> Inr d" for d
      proof (rule root_lacks_salt [OF l refl])
        fix a r assume "typed = VResource a" "heap w a = Some r"
        with t' Some show "mm (fqType r) = Some cd"
          by (simp add: getFullyQualifiedType_def)
      qed
      then obtain e where "fst (root_visitClassDeclaration n mm cd typed w) = Inl e"
        by (cases "fst (root_visitClassDeclaration n mm cd typed w)") auto
      then have "root_visitClassDeclaration n mm cd typed w = (Inl e, w)"
        by (metis readonlyD [OF readonly_root_visitor(1)] prod.collapse)
      with t' Some show ?thesis by (simp add: Merkle_root_def js_defs getType_def)
    qed
  qed
next
  assume "heap w a = Some r \<and> mm (fqType r) = Some (Field name False Primitive # rest)
        \<and> salts r name = None
        \<and> (\<exists>t. JSON_stringify (case props r name of None \<Rightarrow> VUndefined | Some v \<Rightarrow> v) = Inr t)"
  then show "fst (Merkle_root n mm (VResource a) w)
            = Inl (TypeError ''The data argument must be of type string or an instance of Buffer'')"
    by (auto simp: Merkle_root_def js_defs record_defs hash_defs visitor_simps split: option.splits)
qed

theorem root_missing_salt_raises_witness:
  "lacks_salt S1_model (heap S1_unsalted) (VResource 0)
   \<and> (\<exists>e. fst (Merkle_root 0 S1_model (VResource 0) S1_unsalted) = Inl e)
   \<and> fst (Merkle_root 0 S1_model (VResource 0) S1_unsalted)
       = Inl (TypeError ''The data argument must be of type string or an instance of Buffer'')"
proof -
  let ?r = "\<lparr>fqType = ''org.test.Thing'', props = [''name'' \<mapsto> VString ''alice''],
             salts = (Map.empty :: string \<rightharpoonup> buffer)\<rparr>"
  have h: "heap S1_unsalted 0 = Some ?r" by (simp add: S1_unsalted_def)
  have cd: "S1_model (fqType ?r) = Some (Field ''name'' False Primitive # [])"
    by (simp add: S1_model_def)
  have l: "lacks_salt S1_model (heap S1_unsalted) (VResource 0)"
    using lacks_salt.here [of "heap S1_unsalted" 0 ?r S1_model "[Field ''name'' False Primitive]" "''name''"]
      h cd by simp
  have a: "\<exists>e. fst (Merkle_root 0 S1_model (VResource 0) S1_unsalted) = Inl e"
    using root_missing_salt_raises [of S1_model S1_unsalted "VResource 0" 0, THEN conjunct1] l
    by blast
  have b: "fst (Merkle_root 0 S1_model (VResource 0) S1_unsalted)
       = Inl (TypeError ''The data argument must be of type string or an instance of Buffer'')"
    using root_missing_salt_raises [of S1_model S1_unsalted _ 0 0 ?r "''name''" "[]", THEN conjunct2] h cd
    by simp
  from l a b show ?thesis by (intro conjI)
qed

section \<open>The salt engine\<close>

lemma grows_refl: "grows mm h h"
  by (auto simp: grows_def)

lemma grows_trans:
  assumes "grows mm h1 h2" and "grows mm h2 h3"
  shows "grows mm h1 h3"
  unfolding grows_def
proof (intro allI conjI impI)
  fix a assume "h1 a = None"
  with assms show "h3 a = None" by (auto simp: grows_def)
next
  fix a r assume h1: "h1 a = Some r"
  with assms(1) obtain r2 where r2: "h2 a = Some r2" "fqType r2 = fqType r" "props r2 = props r"
    and s2: "\<And>name. salts r2 name = salts r name \<or> (own_leaf mm r name \<and> salt32 (salts r2 name))"
    unfolding grows_def by blast
  from r2(1) assms(2) obtain r3 where r3: "h3 a = Some r3" "fqType r3 = fqType r2" "props r3 = props r2"
    and s3: "\<And>name. salts r3 name = salts r2 name \<or> (own_leaf mm r2 name \<and> salt32 (salts r3 name))"
    unfolding grows_def by blast
  have own: "own_leaf mm r2 name = own_leaf mm r name" for name
    using r2(2) by (simp add: own_leaf_def)
  have "salts r3 name = salts r name \<or> (own_leaf mm r name \<and> salt32 (salts r3 name))" for name
    using s2 [of name] s3 [of name] own [of name] by auto
  with r3 r2 show "\<exists>r'. h3 a = Some r' \<and> fqType r' = fqType r \<and> props r' = props r
      \<and> (\<forall>name. salts r' name = salts r name \<or> (own_leaf mm r name \<and> salt32 (salts r' name)))"
    by simp
qed

lemma grows_lookup:
  "grows mm h h' \<Longrightarrow> h a = Some r
     \<Longrightarrow> \<exists>r'. h' a = Some r' \<and> fqType r' = fqType r \<and> props r' = props r
           \<and> (salt32 (salts r name) \<longrightarrow> salt32 (salts r' name))"
  unfolding grows_def by (metis)

lemma grows_lookup_back:
  "grows mm h h' \<Longrightarrow> h' a = Some r'
     \<Longrightarrow> \<exists>r. h a = Some r \<and> fqType r' = fqType r \<and> props r' = props r"
  unfolding grows_def by (metis option.exhaust option.inject option.distinct(1))

lemma leaf_at_grows:
  "leaf_at mm h v path \<Longrightarrow> grows mm h h' \<Longrightarrow> leaf_at mm h' v path"
proof (induction rule: leaf_at.induct)
  case (leaf a r cd name)
  from grows_lookup [OF leaf(4) leaf(1)] obtain r' where "h' a = Some r'" "fqType r' = fqType r"
    by blast
  with leaf(2,3) leaf_at.leaf [of h' a r' mm cd name] show ?case by simp
next
  case (nested a r cd name c v path)
  from grows_lookup [OF nested(7) nested(1)] obtain r' where
    "h' a = Some r'" "fqType r' = fqType r" "props r' = props r"
    by blast
  with nested(2,3,4) nested(6) [OF nested(7)] leaf_at.nested [of h' a r' mm cd name c v path]
  show ?case by simp
qed

lemma leaf_at_grows_back:
  "leaf_at mm h' v path \<Longrightarrow> grows mm h h' \<Longrightarrow> leaf_at mm h v path"
proof (induction rule: leaf_at.induct)
  case (leaf a r' cd name)
  from grows_lookup_back [OF leaf(4) leaf(1)] obtain r where "h a = Some r" "fqType r' = fqType r"
    by blast
  with leaf(2,3) leaf_at.leaf [of h a r mm cd name] show ?case by simp
next
  case (nested a r' cd name c v path)
  from grows_lookup_back [OF nested(7) nested(1)] obtain r where
    "h a = Some r" "fqType r' = fqType r" "props r' = props r"
    by blast
  with nested(2,3,4) nested(6) [OF nested(7)] leaf_at.nested [of h a r mm cd name c v path]
  show ?case by simp
qed

lemma salt_at_nested:
  "leaf_at mm h v path \<Longrightarrow> h a = Some r \<Longrightarrow> props r name = Some v
     \<Longrightarrow> salt_at h (VResource a) (name # path) = salt_at h v path"
  by (cases path) (auto simp: leaf_at_nonempty)

lemma salt_at_grows:
  "leaf_at mm h v path \<Longrightarrow> grows mm h h' \<Longrightarrow> salt32 (salt_at h v path)
     \<Longrightarrow> salt32 (salt_at h' v path)"
proof (induction rule: leaf_at.induct)
  case (leaf a r cd name)
  from grows_lookup [OF leaf(4) leaf(1), of name] leaf(1,5) show ?case by auto
next
  case (nested a r cd name c v path)
  from grows_lookup [OF nested(7) nested(1)] obtain r' where
    r': "h' a = Some r'" "props r' = props r" by blast
  from nested(8) salt_at_nested [OF nested(5) nested(1) nested(4)]
  have "salt32 (salt_at h v path)" by simp
  from nested(6) [OF nested(7) this]
    salt_at_nested [OF leaf_at_grows [OF nested(5) nested(7)] r'(1), of name] r'(2) nested(4)
  show ?case by simp
qed

lemma salted_grows: "salted mm h v \<Longrightarrow> grows mm h h' \<Longrightarrow> salted mm h' v"
  unfolding salted_def
  using leaf_at_grows_back salt_at_grows by blast



lemma setSalt_grows:
  "heap w a = Some r \<Longrightarrow> own_leaf mm r name \<Longrightarrow> length s = 32
     \<Longrightarrow> \<exists>w'. setSalt a name s w = (Inr (), w') \<and> grows mm (heap w) (heap w')
            \<and> (\<exists>r'. heap w' a = Some r' \<and> salts r' name = Some s)"
  by (auto simp: setSalt_def grows_def salt32_def)

lemma randomBytes_length:
  "randomBytes k w = (res, w') \<Longrightarrow> (\<exists>s. res = Inr s \<and> length s = k) \<and> heap w' = heap w"
  by (auto simp: randomBytes_def)


lemma salted_resource:
  assumes h: "h a = Some r" and cd: "mm (fqType r) = Some cd"
    and prim: "\<And>name. Field name False Primitive \<in> set cd \<Longrightarrow> salt32 (salts r name)"
    and cls: "\<And>name c v. Field name False (Class c) \<in> set cd \<Longrightarrow> props r name = Some v
                \<Longrightarrow> salted mm h v"
  shows "salted mm h (VResource a)"
  unfolding salted_def
proof (intro allI impI)
  fix path assume "leaf_at mm h (VResource a) path"
  then show "salt32 (salt_at h (VResource a) path)"
  proof (cases rule: leaf_at.cases)
    case (leaf r' cd' name)
    with h cd prim [of name] show ?thesis by simp
  next
    case (nested r' cd' name c v path')
    with h cd have "salted mm h v" using cls [of name c v] by simp
    with nested have l: "leaf_at mm h v path'" and s: "salt32 (salt_at h v path')"
      by (simp_all add: salted_def)
    from nested h have "props r name = Some v" by simp
    from salt_at_nested [OF l h this] s nested show ?thesis by simp
  qed
qed

lemma salt_walk:
  "salt_visitClassDeclaration n mm cd typed w = (Inr u, w')
     \<Longrightarrow> (\<And>a r. typed = VResource a \<Longrightarrow> heap w a = Some r \<Longrightarrow> mm (fqType r) = Some cd)
     \<Longrightarrow> grows mm (heap w) (heap w') \<and> salted mm (heap w') typed"
  "salt_properties n mm ps a w = (Inr u, w') \<Longrightarrow> heap w a = Some r \<Longrightarrow> mm (fqType r) = Some cd'
     \<Longrightarrow> set ps \<subseteq> set cd'
     \<Longrightarrow> grows mm (heap w) (heap w')
         \<and> (\<forall>name. Field name False Primitive \<in> set ps
               \<longrightarrow> (\<exists>r'. heap w' a = Some r' \<and> salt32 (salts r' name)))
         \<and> (\<forall>name c v. Field name False (Class c) \<in> set ps \<longrightarrow> props r name = Some v
               \<longrightarrow> salted mm (heap w') v)"
  "salt_visitField n mm isArray ty v w = (Inr so, w')
     \<Longrightarrow> \<not> isArray \<and> ty \<noteq> Enum \<and> grows mm (heap w) (heap w')
         \<and> (ty = Primitive \<longrightarrow> (\<exists>s. so = Some s \<and> length s = 32) \<and> heap w' = heap w)
         \<and> (\<forall>c. ty = Class c \<longrightarrow> so = None \<and> salted mm (heap w') v)"
proof (induction n mm cd typed and n mm ps a and n mm isArray ty v
       arbitrary: u w w' and u w w' r cd' and so w w'
       rule: salt_visitClassDeclaration_salt_properties_salt_visitField.induct)
  case (1 n mm classDeclaration typed)
  from 1(2) obtain a r where typed: "typed = VResource a" and h: "heap w a = Some r"
    and pp: "salt_properties n mm classDeclaration a w = (Inr u, w')"
    by (auto simp: salt_visitClassDeclaration.simps js_defs isResource_def
          split: jsvalue.splits if_splits)
  from 1(3) [OF typed h] have cd: "mm (fqType r) = Some classDeclaration" .
  from 1(1) [OF typed TrueI pp h cd subset_refl]
  have g: "grows mm (heap w) (heap w')"
    and prim: "\<And>name. Field name False Primitive \<in> set classDeclaration
                 \<Longrightarrow> \<exists>r'. heap w' a = Some r' \<and> salt32 (salts r' name)"
    and cls: "\<And>name c v. Field name False (Class c) \<in> set classDeclaration \<Longrightarrow> props r name = Some v
                 \<Longrightarrow> salted mm (heap w') v"
    by blast+
  from grows_lookup [OF g h] obtain r' where r': "heap w' a = Some r'" "fqType r' = fqType r"
    "props r' = props r" by blast
  have "salted mm (heap w') (VResource a)"
  proof (rule salted_resource [of "heap w'" a r' mm classDeclaration])
    show "heap w' a = Some r'" by (rule r'(1))
  next
    from cd r'(2) show "mm (fqType r') = Some classDeclaration" by simp
  next
    fix name assume "Field name False Primitive \<in> set classDeclaration"
    from prim [OF this] r'(1) show "salt32 (salts r' name)" by simp
  next
    fix name c v assume "Field name False (Class c) \<in> set classDeclaration" "props r' name = Some v"
    with cls [of name c v] r'(3) show "salted mm (heap w') v" by simp
  qed
  with g typed show ?case by simp
next
  case (2 n mm a)
  then show ?case by (simp add: js_defs grows_refl)
next
  case (3 n mm property properties a)
  let ?v = "case props r (getName property) of None \<Rightarrow> VUndefined | Some v \<Rightarrow> v"
  note run = 3(3) and h = 3(4) and cd = 3(5) and sub = 3(6)
  show ?case
  proof (cases property)
    case (RelationshipDeclaration name)
    with run h show ?thesis
      by (auto simp: js_defs getProperty_eq salt_visitRelationshipDeclaration_def
            split: jsvalue.splits)
  next
    case (Field name isArray ty)
    from Field have nm: "getName property = name" by simp
    from sub Field have mem: "Field name isArray ty \<in> set cd'" by simp
    obtain res w1 where f: "salt_visitField n mm isArray ty ?v w = (res, w1)"
      by (cases "salt_visitField n mm isArray ty ?v w")
    from run h Field f obtain so where res: "res = Inr so"
      by (cases res) (auto simp: js_defs getProperty_eq)
    from 3(1) [OF Field f [unfolded res]]
    have na: "\<not> isArray" and ne: "ty \<noteq> Enum" and g1: "grows mm (heap w) (heap w1)"
      and prim: "ty = Primitive \<Longrightarrow> (\<exists>s. so = Some s \<and> length s = 32) \<and> heap w1 = heap w"
      and cls: "\<And>c. ty = Class c \<Longrightarrow> so = None \<and> salted mm (heap w1) ?v"
      by blast+
    from grows_lookup [OF g1 h] obtain r1 where r1: "heap w1 a = Some r1" "fqType r1 = fqType r"
      "props r1 = props r" by blast
    obtain w2 where
      set: "(case so of None \<Rightarrow> js_return () | Some s \<Rightarrow> setSalt a (getName property) s) w1 = (Inr (), w2)"
      and g2: "grows mm (heap w1) (heap w2)"
      and stored: "\<And>s. so = Some s \<Longrightarrow> \<exists>r2. heap w2 a = Some r2 \<and> salts r2 name = Some s"
    proof (cases so)
      case None
      show ?thesis
        by (rule that [of w1]) (simp_all add: None js_defs grows_refl)
    next
      case (Some s)
      with cls ne have ty: "ty = Primitive" by (cases ty) auto
      from prim [OF ty] Some have len: "length s = 32" by simp
      from mem na ty cd r1(2) have "own_leaf mm r1 name" by (simp add: own_leaf_def)
      from setSalt_grows [OF r1(1) this len] obtain w2 where
        "setSalt a name s w1 = (Inr (), w2)" "grows mm (heap w1) (heap w2)"
        "\<exists>r2. heap w2 a = Some r2 \<and> salts r2 name = Some s"
        by blast
      then show ?thesis
        by (intro that [of w2]) (simp_all add: Some nm)
    qed
    from run h Field f res set nm
    have rest: "salt_properties n mm properties a w2 = (Inr u, w')"
      by (cases so) (simp_all add: js_defs getProperty_eq)
    from grows_lookup [OF g2 r1(1)] obtain r2 where r2: "heap w2 a = Some r2" "fqType r2 = fqType r1"
      "props r2 = props r1" by blast
    from sub have sub': "set properties \<subseteq> set cd'" by simp
    from cd r1(2) r2(2) have cd2: "mm (fqType r2) = Some cd'" by simp
    from 3(2) [OF rest r2(1) cd2 sub']
    have g3: "grows mm (heap w2) (heap w')"
      and tprim: "\<And>nm'. Field nm' False Primitive \<in> set properties
                 \<Longrightarrow> \<exists>r'. heap w' a = Some r' \<and> salt32 (salts r' nm')"
      and tcls: "\<And>nm' c v. Field nm' False (Class c) \<in> set properties \<Longrightarrow> props r2 nm' = Some v
                 \<Longrightarrow> salted mm (heap w') v"
      by blast+
    have g: "grows mm (heap w) (heap w')"
      using grows_trans [OF grows_trans [OF g1 g2] g3] .
    have hprim: "\<exists>r'. heap w' a = Some r' \<and> salt32 (salts r' name)" if "ty = Primitive"
    proof -
      from prim [OF that] obtain s where s: "so = Some s" "length s = 32" by blast
      from stored [OF s(1)] obtain r2' where "heap w2 a = Some r2'" "salts r2' name = Some s" by blast
      with s(2) have "salt32 (salts r2' name)" by (simp add: salt32_def)
      with grows_lookup [OF g3 \<open>heap w2 a = Some r2'\<close>, of name] show ?thesis by blast
    qed
    have hcls: "salted mm (heap w') v'" if "ty = Class c" "props r name = Some v'" for c v'
    proof -
      from cls [OF that(1)] that(2) nm have "salted mm (heap w1) v'" by simp
      from salted_grows [OF this grows_trans [OF g2 g3]] show ?thesis .
    qed
    show ?thesis
    proof (intro conjI allI impI)
      show "grows mm (heap w) (heap w')" by (rule g)
    next
      fix nm' assume "Field nm' False Primitive \<in> set (property # properties)"
      then have "(nm' = name \<and> ty = Primitive) \<or> Field nm' False Primitive \<in> set properties"
        using Field by auto
      then show "\<exists>r'. heap w' a = Some r' \<and> salt32 (salts r' nm')"
        using hprim tprim by blast
    next
      fix nm' c v' assume "Field nm' False (Class c) \<in> set (property # properties)"
        and pv: "props r nm' = Some v'"
      then have "(nm' = name \<and> ty = Class c) \<or> Field nm' False (Class c) \<in> set properties"
        using Field by auto
      then show "salted mm (heap w') v'"
        using hcls [of c v'] tcls [of nm' c v'] pv r1(3) r2(3) by auto
    qed
  qed
next
  case (4 n mm isArray ty v)
  from 4(2) have na: "\<not> isArray"
    by (auto simp: salt_visitField.simps js_defs split: if_splits)
  show ?case
  proof (cases ty)
    case Primitive
    with 4(2) na show ?thesis
      by (auto simp: salt_visitField.simps js_defs randomBytes_def grows_refl)
  next
    case Enum
    with 4(2) na show ?thesis by (simp add: salt_visitField.simps js_defs)
  next
    case (Class c)
    show ?thesis
    proof (cases n)
      case 0
      with 4(2) na Class show ?thesis by (simp add: salt_visitField.simps js_defs)
    next
      case (Suc m)
      from 4(2) na Class Suc obtain t cd u where
        t: "getFullyQualifiedType v w = (Inr t, w)" and cd: "mm t = Some cd"
        and walk: "salt_visitClassDeclaration m mm cd v w = (Inr u, w')" and so: "so = None"
        by (auto simp: salt_visitField.simps js_defs getType_def
              split: prod.splits sum.splits option.splits
              dest: readonlyD [OF readonly_getFullyQualifiedType])
      have "grows mm (heap w) (heap w') \<and> salted mm (heap w') v"
      proof (rule 4(1) [OF na Class Suc walk])
        fix a r assume "v = VResource a" "heap w a = Some r"
        with t cd show "mm (fqType r) = Some cd"
          by (simp add: getFullyQualifiedType_def)
      qed
      with na Class so show ?thesis by simp
    qed
  qed
qed

text \<open>
  Claim C7.  After \<^verbatim>\<open>salt(record)\<close> returns successfully, every primitive leaf reachable
  from the record through primitive and nested-class fields has a salt of exactly 32
  bytes in the salt store of the record that directly owns the leaf.  And the salts of a
  nested record's leaves are never written into the parent's store: every record of the
  heap keeps its type and property values, and its salt store changes only under names
  of primitive fields of its own class, to salts of 32 bytes.
\<close>

theorem salt_populates_every_leaf:
  assumes "Merkle_salt n mm typed w = (Inr (), w')"
  shows "(\<forall>path. leaf_at mm (heap w') typed path
            \<longrightarrow> (\<exists>s. salt_at (heap w') typed path = Some s \<and> length s = 32))
       \<and> (\<forall>a r. heap w a = Some r
            \<longrightarrow> (\<exists>r'. heap w' a = Some r' \<and> fqType r' = fqType r \<and> props r' = props r
                  \<and> (\<forall>name. salts r' name \<noteq> salts r name
                        \<longrightarrow> (\<exists>cd s. mm (fqType r) = Some cd
                               \<and> Field name False Primitive \<in> set cd
                               \<and> salts r' name = Some s \<and> length s = 32))))"
proof -
  from assms obtain t cd where t: "getFullyQualifiedType typed w = (Inr t, w)"
    and cd: "mm t = Some cd"
    and walk: "salt_visitClassDeclaration n mm cd typed w = (Inr (), w')"
    by (auto simp: Merkle_salt_def js_defs getType_def
          split: prod.splits sum.splits option.splits
          dest: readonlyD [OF readonly_getFullyQualifiedType])
  have "grows mm (heap w) (heap w') \<and> salted mm (heap w') typed"
  proof (rule salt_walk(1) [OF walk])
    fix a r assume "typed = VResource a" "heap w a = Some r"
    with t cd show "mm (fqType r) = Some cd"
      by (simp add: getFullyQualifiedType_def)
  qed
  then have g: "grows mm (heap w) (heap w')" and s: "salted mm (heap w') typed" by simp_all
  have leaves: "\<exists>s. salt_at (heap w') typed path = Some s \<and> length s = 32"
    if "leaf_at mm (heap w') typed path" for path
    using s that by (auto simp: salted_def salt32_def split: option.splits)
  have stores: "\<exists>r'. heap w' a = Some r' \<and> fqType r' = fqType r \<and> props r' = props r
                  \<and> (\<forall>name. salts r' name \<noteq> salts r name
                        \<longrightarrow> (\<exists>cd s. mm (fqType r) = Some cd
                               \<and> Field name False Primitive \<in> set cd
                               \<and> salts r' name = Some s \<and> length s = 32))"
    if h: "heap w a = Some r" for a r
  proof -
    from g h obtain r' where r': "heap w' a = Some r'" "fqType r' = fqType r" "props r' = props r"
      and ch: "\<And>name. salts r' name = salts r name \<or> (own_leaf mm r name \<and> salt32 (salts r' name))"
      unfolding grows_def by blast
    have "\<exists>cd s. mm (fqType r) = Some cd \<and> Field name False Primitive \<in> set cd
                \<and> salts r' name = Some s \<and> length s = 32"
      if "salts r' name \<noteq> salts r name" for name
      using ch [of name] that
      by (auto simp: own_leaf_def salt32_def split: option.splits)
    with r' show ?thesis by blast
  qed
  from leaves stores show ?thesis by blast
qed

lemma nested_salted:
  "Merkle_salt 1 nested_model (VResource 0) nested_fresh = (Inr (), nested_world)"
proof -
  have "fst (Merkle_salt 1 nested_model (VResource 0) nested_fresh) = Inr ()"
    by (simp add: nested_fresh_def nested_model_def api_defs js_defs record_defs visitor_simps)
  then show ?thesis
    by (simp add: nested_world_def prod_eq_iff)
qed

lemma nested_leaf: "leaf_at nested_model (heap nested_world) (VResource 0) [''inner'', ''k'']"
proof -
  let ?inner = "\<lparr>fqType = ''org.test.Inner'', props = [''k'' \<mapsto> VString ''v''],
                  salts = [''k'' \<mapsto> nested_salt_k]\<rparr>"
  let ?outer = "\<lparr>fqType = ''org.test.Outer'',
                  props = [''a'' \<mapsto> VString ''x'', ''inner'' \<mapsto> VResource 1],
                  salts = [''a'' \<mapsto> nested_salt_a]\<rparr>"
  have "leaf_at nested_model (heap nested_world) (VResource 1) [''k'']"
    using leaf_at.leaf [of "heap nested_world" 1 ?inner nested_model "[Field ''k'' False Primitive]" "''k''"]
    by (simp add: nested_world_eq nested_model_def)
  then show ?thesis
    using leaf_at.nested [of "heap nested_world" 0 ?outer nested_model
        "[Field ''a'' False Primitive, Field ''inner'' False (Class ''org.test.Inner'')]"
        "''inner''" "''org.test.Inner''" "VResource 1" "[''k'']"]
    by (simp add: nested_world_eq nested_model_def)
qed

theorem salt_populates_every_leaf_witness:
  "Merkle_salt 1 nested_model (VResource 0) nested_fresh = (Inr (), nested_world)
   \<and> leaf_at nested_model (heap nested_world) (VResource 0) [''inner'', ''k'']
   \<and> (\<exists>s. salt_at (heap nested_world) (VResource 0) [''inner'', ''k''] = Some s \<and> length s = 32)
   \<and> salt_at (heap nested_world) (VResource 0) [''inner'', ''k''] = Some nested_salt_k
   \<and> salt_at (heap nested_world) (VResource 0) [''k''] = None"
proof -
  have a: "\<exists>s. salt_at (heap nested_world) (VResource 0) [''inner'', ''k''] = Some s \<and> length s = 32"
    using salt_populates_every_leaf [OF nested_salted, THEN conjunct1, rule_format, OF nested_leaf] .
  have b: "salt_at (heap nested_world) (VResource 0) [''inner'', ''k''] = Some nested_salt_k"
    by (simp add: nested_world_eq)
  have c: "salt_at (heap nested_world) (VResource 0) [''k''] = None"
    by (simp add: nested_world_eq)
  from nested_salted nested_leaf a b c show ?thesis by (intro conjI)
qed

section \<open>The round trip on flat records\<close>

lemma getProperty_value_of: "heap w a = Some r \<Longrightarrow> getProperty a name w = (Inr (value_of r name), w)"
  by (simp add: getProperty_eq value_of_def)

lemma getSalt_salt_of: "heap w a = Some r \<Longrightarrow> getSalt a name w = (Inr (salt_of r name), w)"
  by (simp add: getSalt_eq salt_of_def)

lemma root_primitive_world: "root_primitive v s w = (res, w') \<Longrightarrow> root_primitive v s w0 = (res, w0)"
  by (auto simp: root_primitive_def js_defs)

lemma proof_primitive_digest:
  "path \<noteq> cur \<Longrightarrow> root_primitive v s w = (Inr h, w')
     \<Longrightarrow> proof_primitive v s path cur w = (Inr (Digest h), w)"
  by (auto simp: root_primitive_def proof_primitive_def js_defs pathEquals_iff split: sum.splits)

lemma verify_primitive_digest:
  "root_primitive v s w = (Inr h, w') \<Longrightarrow> verify_primitive path path v s w = (Inr (Some h), w)"
  by (auto simp: root_primitive_def verify_primitive_def js_defs pathEquals_iff split: sum.splits)

lemma root_primitive_salt:
  "root_primitive v (salt_of r name) w = (Inr h, w') \<Longrightarrow> \<exists>s. salt_of r name = VBuffer s"
  by (auto simp: root_primitive_def js_defs hash_update_def salt_of_def
        split: sum.splits option.splits)

lemma root_properties_primitive:
  "heap w a = Some r \<Longrightarrow> primitive_fields ps \<Longrightarrow> root_properties n mm ps a w = (Inr hs, w')
     \<Longrightarrow> list_all2 (\<lambda>p h. root_primitive (value_of r (getName p)) (salt_of r (getName p)) w = (Inr h, w))
           ps hs"
proof (induction ps arbitrary: hs)
  case Nil
  then show ?case by (simp add: js_defs)
next
  case (Cons p ps)
  from Cons.prems(2) obtain name where p: "p = Field name False Primitive"
    and rest: "primitive_fields ps"
    by (auto simp: primitive_fields_def)
  obtain res w1 where f: "root_primitive (value_of r name) (salt_of r name) w = (res, w1)"
    by (cases "root_primitive (value_of r name) (salt_of r name) w")
  have w1: "w1 = w" using readonlyD [OF readonly_root_primitive f] .
  from Cons.prems(1,3) p f obtain h where res: "res = Inr h"
    by (cases res)
       (auto simp: js_defs getProperty_value_of getSalt_salt_of root_visitField.simps)
  from Cons.prems(1,3) p f res w1 obtain hs' where
    tl: "root_properties n mm ps a w = (Inr hs', w')" and hs: "hs = h # hs'"
    by (auto simp: js_defs getProperty_value_of getSalt_salt_of root_visitField.simps
          split: prod.splits sum.splits)
  from Cons.IH [OF Cons.prems(1) rest tl] f res w1 p hs show ?case by simp
qed

lemma proof_properties_digests:
  "heap w a = Some r \<Longrightarrow> primitive_fields ps \<Longrightarrow> name \<notin> getName ` set ps
     \<Longrightarrow> list_all2 (\<lambda>p h. root_primitive (value_of r (getName p)) (salt_of r (getName p)) w = (Inr h, w))
           ps hs
     \<Longrightarrow> proof_properties n mm qs a [name] [] w = (Inr rest, w)
     \<Longrightarrow> proof_properties n mm (ps @ qs) a [name] [] w = (Inr (map Digest hs @ rest), w)"
proof (induction ps arbitrary: hs)
  case Nil
  then show ?case by simp
next
  case (Cons p ps)
  from Cons.prems(2) obtain nm where p: "p = Field nm False Primitive"
    and prim: "primitive_fields ps"
    by (auto simp: primitive_fields_def)
  from Cons.prems(3) p have ne: "[name] \<noteq> [nm]" and notin: "name \<notin> getName ` set ps" by auto
  from Cons.prems(4) p obtain h hs' where hs: "hs = h # hs'"
    and h: "root_primitive (value_of r nm) (salt_of r nm) w = (Inr h, w)"
    and tl: "list_all2 (\<lambda>p h. root_primitive (value_of r (getName p)) (salt_of r (getName p)) w = (Inr h, w))
               ps hs'"
    by (cases hs) auto
  from Cons.IH [OF Cons.prems(1) prim notin tl Cons.prems(5)]
    proof_primitive_digest [OF ne h] Cons.prems(1) p hs
  show ?case
    by (simp add: js_defs getProperty_value_of getSalt_salt_of proof_visitField.simps)
qed

lemma splitProof_loop_digests:
  "splitProof_loop (map Digest hs) (b, c, a)
     = (if c = None then (b @ hs, c, a) else (b, c, a @ hs))"
  by (induction hs arbitrary: b a) auto

lemma splitProof_loop_append:
  "splitProof_loop (xs @ ys) acc = splitProof_loop ys (splitProof_loop xs acc)"
proof (induction xs arbitrary: acc)
  case Nil
  show ?case by simp
next
  case (Cons x xs)
  obtain b c a where acc: "acc = (b, c, a)" by (cases acc)
  from Cons show ?case by (cases c) (auto simp: acc split: rawProof.splits)
qed

lemma splitProof_disclosure:
  "splitProof (map Digest hp @ Disclosure v s # map Digest hq) = (hp, Some (Disclosure v s), hq)"
  by (simp add: splitProof_def splitProof_loop_append splitProof_loop_digests)

lemma verify_skips_primitives:
  "primitive_fields ps \<Longrightarrow> name \<notin> getName ` set ps
     \<Longrightarrow> verify_visitClassDeclaration n mm (ps @ qs) [name] [] v s hashes w
         = verify_visitClassDeclaration n mm qs [name] [] v s hashes w"
proof (induction ps)
  case Nil
  show ?case by simp
next
  case (Cons p ps)
  from Cons.prems(1) obtain nm where p: "p = Field nm False Primitive"
    and prim: "primitive_fields ps"
    by (auto simp: primitive_fields_def)
  from Cons.prems(2) p have ne: "name \<noteq> nm" and notin: "name \<notin> getName ` set ps" by auto
  from Cons.IH [OF prim notin] p ne show ?case
    by (simp add: js_defs verify_visitField.simps verify_primitive_def pathEquals_iff)
qed

text \<open>
  Where the round trip does hold: for a record of a class with only primitive fields,
  under distinct names, whose root is computed, \<^verbatim>\<open>Merkle.proof\<close> of any of its fields
  returns a proof, and \<^verbatim>\<open>Merkle.verify\<close> of that proof against the root returns true.
\<close>

theorem flat_round_trip:
  assumes mm: "mm (ns @ ''.'' @ type) = Some cd"
    and flat: "primitive_fields cd" and dist: "distinct (map getName cd)"
    and h: "heap w a = Some r" and ty: "fqType r = ns @ ''.'' @ type"
    and leaf: "Field name False Primitive \<in> set cd"
    and root: "fst (Merkle_root n mm (VResource a) w) = Inr rt"
  shows "\<exists>pf. fst (Merkle_proof n mm (VResource a) [name] w) = Inr pf
            \<and> fst (Merkle_verify n mm ns type [name] rt pf w) = Inr True"
proof -
  from leaf obtain pre post where cd: "cd = pre @ Field name False Primitive # post"
    by (auto dest: split_list)
  from flat cd have ppre: "primitive_fields pre" and ppost: "primitive_fields post"
    by (auto simp: primitive_fields_def)
  from dist cd have npre: "name \<notin> getName ` set pre" and npost: "name \<notin> getName ` set post"
    by auto
  from root mm h ty obtain hs w' where
    rp: "root_properties n mm cd a w = (Inr hs, w')" and rt: "rt = toHex (sha256 (concat hs))"
    by (auto simp: Merkle_root_def js_defs record_defs root_visitClassDeclaration.simps
          digest_def createHash_def foldl_append_concat
          split: prod.splits sum.splits)
  let ?L = "\<lambda>p h. root_primitive (value_of r (getName p)) (salt_of r (getName p)) w = (Inr h, w)"
  from root_properties_primitive [OF h flat rp] have all: "list_all2 ?L cd hs" .
  then obtain hp d hq where hs: "hs = hp @ d # hq" and lp: "list_all2 ?L pre hp"
    and ld: "root_primitive (value_of r name) (salt_of r name) w = (Inr d, w)"
    and lq: "list_all2 ?L post hq"
    unfolding cd by (auto simp: list_all2_append1 list_all2_Cons1)
  from root_primitive_salt [OF ld] obtain s where s: "salt_of r name = VBuffer s" by blast
  have "proof_properties n mm (post @ []) a [name] [] w = (Inr (map Digest hq @ []), w)"
    by (rule proof_properties_digests [OF h ppost npost lq]) (simp add: js_defs)
  then have "proof_properties n mm (Field name False Primitive # post) a [name] [] w
               = (Inr (Disclosure (value_of r name) (VBuffer s) # map Digest hq), w)"
    using h s
    by (simp add: js_defs getProperty_value_of getSalt_salt_of proof_visitField.simps
          proof_primitive_def pathEquals_iff)
  from proof_properties_digests [OF h ppre npre lp this]
  have pp: "proof_properties n mm cd a [name] [] w
              = (Inr (map Digest hp @ Disclosure (value_of r name) (VBuffer s) # map Digest hq), w)"
    by (simp add: cd)
  let ?pf = "\<lparr>p_hashes = [(map toHex hp, map toHex hq)], p_value = value_of r name, p_salt = toHex s\<rparr>"
  have made: "fst (Merkle_proof n mm (VResource a) [name] w) = Inr ?pf"
    using mm h ty pp
    by (simp add: Merkle_proof_def js_defs record_defs proof_visitClassDeclaration.simps
          flatten.simps splitProof_disclosure)
  from ld s have vd: "verify_primitive [name] [name] (value_of r name) (VBuffer s) w = (Inr (Some d), w)"
    using verify_primitive_digest [of "value_of r name" "VBuffer s" w d w "[name]"] by simp
  have "verify_visitClassDeclaration n mm cd [name] [] (value_of r name) (VBuffer s) [(hp, hq)] w
          = (Inr (Some (sha256 (concat hp @ d @ concat hq)), []), w)"
    unfolding cd
    by (simp add: verify_skips_primitives [OF ppre npre] js_defs verify_visitField.simps vd
          verify_combine_def digest_def createHash_def foldl_append_concat)
  moreover have "map (fromHex \<circ> toHex) xs = xs" for xs
    by (simp add: comp_def fromHex_toHex)
  ultimately have "fst (Merkle_verify n mm ns type [name] rt ?pf w) = Inr True"
    using mm
    by (simp add: Merkle_verify_def js_defs getType_def fromHex_toHex rt hs)
  with made show ?thesis by blast
qed

lemma S2_root_value: "fst (Merkle_root 0 S2_model (VResource 0) S2_world) = Inr S2_root"
  by (simp add: S2_world_eq S2_model_def S2_root_def api_defs js_defs record_defs hash_defs
        visitor_simps)

theorem flat_round_trip_witness:
  "\<exists>pf. fst (Merkle_proof 0 S2_model (VResource 0) [''b''] S2_world) = Inr pf
       \<and> fst (Merkle_verify 0 S2_model ''org.test'' ''Pair'' [''b''] S2_root pf S2_world) = Inr True"
proof -
  let ?cd = "[Field ''a'' False Primitive, Field ''b'' False Primitive]"
  let ?r = "\<lparr>fqType = ''org.test.Pair'',
             props = [''a'' \<mapsto> VString ''x'', ''b'' \<mapsto> VBoolean True],
             salts = [''a'' \<mapsto> S2_salt_a, ''b'' \<mapsto> S2_salt_b]\<rparr>"
  have mm: "S2_model (''org.test'' @ ''.'' @ ''Pair'') = Some ?cd" by (simp add: S2_model_def)
  have flat: "primitive_fields ?cd" by (simp add: primitive_fields_def)
  have dist: "distinct (map getName ?cd)" by simp
  have h: "heap S2_world 0 = Some ?r" by (simp add: S2_world_eq)
  have ty: "fqType ?r = ''org.test'' @ ''.'' @ ''Pair''" by simp
  have leaf: "Field ''b'' False Primitive \<in> set ?cd" by simp
  from flat_round_trip [OF mm flat dist h ty leaf S2_root_value] show ?thesis .
qed

end
